theory Spec2Isabelle
  imports Main "HOL-Library.Sublist" "HOL-Library.AList"
begin

section \<open>Python strings\<close>

text \<open>
  A Python \<^verbatim>\<open>str\<close> is a sequence of Unicode code points, and \<^verbatim>\<open>len\<close> counts code
  points. A string is therefore a list of code points (natural numbers); \<open>ustr\<close> embeds
  an ASCII literal. The backslash is written by its code point 92.
\<close>

type_synonym pystr = "nat list"

definition ustr :: "string \<Rightarrow> pystr" where
  "ustr s = map of_char s"

definition backslash :: nat where
  "backslash = 92"

definition space :: nat where
  "space = 32"

definition newline :: nat where
  "newline = 10"

text \<open>
  \<^verbatim>\<open>str.isspace\<close> for one code point: the characters that \<^verbatim>\<open>str.split()\<close>,
  \<^verbatim>\<open>str.strip()\<close> and \<^verbatim>\<open>str.rstrip()\<close> treat as whitespace.
\<close>

definition isspace :: "nat \<Rightarrow> bool" where
  "isspace c \<longleftrightarrow>
     (9 \<le> c \<and> c \<le> 13) \<or> (28 \<le> c \<and> c \<le> 32) \<or> c = 133 \<or> c = 160 \<or> c = 5760 \<or>
     (8192 \<le> c \<and> c \<le> 8202) \<or> c = 8232 \<or> c = 8233 \<or> c = 8239 \<or> c = 8287 \<or> c = 12288"

text \<open>
  \<^verbatim>\<open>str.upper()\<close> maps every code point on its own (the full upper-case mapping of one
  code point may be several code points). On ASCII it maps \<^verbatim>\<open>a..z\<close> to \<^verbatim>\<open>A..Z\<close>; the
  Unicode table for the code points from 128 on is not part of the repository and is
  the parameter \<open>uc\<close>.
\<close>

definition upper_char :: "(nat \<Rightarrow> pystr) \<Rightarrow> nat \<Rightarrow> pystr" where
  "upper_char uc c =
     (if c < 128 then [if 97 \<le> c \<and> c \<le> 122 then c - 32 else c] else uc c)"

definition upper :: "(nat \<Rightarrow> pystr) \<Rightarrow> pystr \<Rightarrow> pystr" where
  "upper uc s = concat (map (upper_char uc) s)"

text \<open>
  \<^verbatim>\<open>s.replace(old, new)\<close>: the occurrences of \<open>old\<close> are found from the left and do
  not overlap. With an empty \<open>old\<close>, Python puts \<open>new\<close> before every character and at
  the end.
\<close>

function replace :: "pystr \<Rightarrow> pystr \<Rightarrow> pystr \<Rightarrow> pystr" where
  "replace old new [] = (if old = [] then new else [])"
| "replace old new (c # cs) =
     (if old = [] then new @ concat (map (\<lambda>x. x # new) (c # cs))
      else if prefix old (c # cs) then new @ replace old new (drop (length old) (c # cs))
      else c # replace old new cs)"
  by pat_completeness auto
termination
  by (relation "measure (\<lambda>(old, new, s). length s)") (auto simp: Suc_le_eq)

text \<open>\<^verbatim>\<open>s.ljust(width)\<close>, \<^verbatim>\<open>s.rstrip()\<close>, \<^verbatim>\<open>s.strip()\<close>, \<^verbatim>\<open>sep.join(xs)\<close>.\<close>

definition ljust :: "pystr \<Rightarrow> nat \<Rightarrow> pystr" where
  "ljust s width = s @ replicate (width - length s) space"

definition rstrip :: "pystr \<Rightarrow> pystr" where
  "rstrip s = rev (dropWhile isspace (rev s))"

definition strip :: "pystr \<Rightarrow> pystr" where
  "strip s = rstrip (dropWhile isspace s)"

fun join :: "pystr \<Rightarrow> pystr list \<Rightarrow> pystr" where
  "join sep [] = []"
| "join sep [x] = x"
| "join sep (x # y # ys) = x @ sep @ join sep (y # ys)"

text \<open>
  \<^verbatim>\<open>s.split()\<close>: the maximal runs of non-whitespace characters, in order. \<open>cur\<close> is
  the token being read, reversed.
\<close>

fun split_from :: "pystr \<Rightarrow> pystr \<Rightarrow> pystr list" where
  "split_from cur [] = (if cur = [] then [] else [rev cur])"
| "split_from cur (c # cs) =
     (if isspace c then (if cur = [] then split_from [] cs else rev cur # split_from [] cs)
      else split_from (c # cur) cs)"

definition split :: "pystr \<Rightarrow> pystr list" where
  "split s = split_from [] s"

text \<open>\<^verbatim>\<open>str(n)\<close> for a non-negative integer: its decimal digits.\<close>

function str_nat :: "nat \<Rightarrow> pystr" where
  "str_nat n = (if n < 10 then [48 + n] else str_nat (n div 10) @ [48 + n mod 10])"
  by pat_completeness auto
termination
  by (relation "measure id") auto

declare str_nat.simps [simp del]

section \<open>The markup cleaner\<close>

text \<open>
  \<^verbatim>\<open>re.sub(r'\\textsc\{([^}]*)(?:\}|$)', lambda match: match.group(1).upper(), gloss)\<close>.
  The scan goes from the left. Where \<^verbatim>\<open>\textsc{\<close> starts, the greedy class takes every
  character up to the first closing brace or the end of the string; then either the
  brace is consumed or \<^verbatim>\<open>$\<close> matches at the end, so the match never fails and never
  backtracks. The scan goes on after the match.
\<close>

definition textsc_open :: pystr where
  "textsc_open = backslash # ustr ''textsc{''"

definition rbrace :: nat where
  "rbrace = 125"

function sub_textsc :: "(nat \<Rightarrow> pystr) \<Rightarrow> pystr \<Rightarrow> pystr" where
  "sub_textsc uc [] = []"
| "sub_textsc uc (c # cs) =
     (if prefix textsc_open (c # cs)
      then upper uc (takeWhile (\<lambda>x. x \<noteq> rbrace) (drop (length textsc_open) (c # cs)))
           @ sub_textsc uc
               (drop 1 (dropWhile (\<lambda>x. x \<noteq> rbrace) (drop (length textsc_open) (c # cs))))
      else c # sub_textsc uc cs)"
  by pat_completeness auto
termination
proof (relation "measure (\<lambda>(uc, s). length s)")
  show "wf (measure (\<lambda>(uc, s). length s))"
    by simp
next
  fix uc :: "nat \<Rightarrow> pystr" and c :: nat and cs :: pystr
  have "length (dropWhile (\<lambda>x. x \<noteq> rbrace) (drop (length textsc_open) (c # cs)))
          \<le> length (drop (length textsc_open) (c # cs))"
    by (rule length_dropWhile_le)
  moreover have "length (drop (length textsc_open) (c # cs)) < length (c # cs)"
    by (simp add: textsc_open_def ustr_def)
  ultimately show
    "((uc, drop 1 (dropWhile (\<lambda>x. x \<noteq> rbrace) (drop (length textsc_open) (c # cs)))),
      (uc, c # cs)) \<in> measure (\<lambda>(uc, s). length s)"
    by simp
next
  fix uc :: "nat \<Rightarrow> pystr" and c :: nat and cs :: pystr
  show "((uc, cs), (uc, c # cs)) \<in> measure (\<lambda>(uc, s). length s)"
    by simp
qed

definition rightarrow_macro :: pystr where
  "rightarrow_macro = ustr ''$'' @ backslash # ustr ''rightarrow$''"

definition emptyset_macro :: pystr where
  "emptyset_macro = ustr ''$'' @ backslash # ustr ''emptyset$''"

definition tld_macro :: pystr where
  "tld_macro = backslash # ustr ''tld{}''"

text \<open>The replacements are U+2192 (rightwards arrow), U+2205 (empty set) and the tilde.\<close>

definition detex :: "(nat \<Rightarrow> pystr) \<Rightarrow> pystr \<Rightarrow> pystr" where
  "detex uc gloss =
     sub_textsc uc
       (replace tld_macro (ustr ''~'')
         (replace emptyset_macro [8709]
           (replace rightarrow_macro [8594] gloss)))"

section \<open>Rows, errors and the comprehension combinators\<close>

text \<open>
  A row read from a CSV file is a dict from column names to cell strings. The rows
  that \<^verbatim>\<open>cmd_makecldf\<close> builds for the language and the example table also hold
  lists of strings (\<^verbatim>\<open>Source\<close>, \<^verbatim>\<open>Analyzed_Word\<close>, \<^verbatim>\<open>Gloss\<close>). Every exception the
  code can raise is a value of \<open>error\<close>; \<open>Unmodelled\<close> marks the one place where this
  model does not follow Python (formatting a list with \<^verbatim>\<open>str.format\<close>).
\<close>

datatype pyval = Str pystr | Lst "pystr list"

datatype error = KeyError pystr | TypeError | AttributeError | Unmodelled

type_synonym row = "pystr \<rightharpoonup> pystr"

type_synonym pydict = "pystr \<rightharpoonup> pyval"

definition ebind :: "error + 'a \<Rightarrow> ('a \<Rightarrow> error + 'b) \<Rightarrow> error + 'b" where
  "ebind x f = (case x of Inl e \<Rightarrow> Inl e | Inr v \<Rightarrow> f v)"

definition getitem :: "(pystr \<rightharpoonup> 'v) \<Rightarrow> pystr \<Rightarrow> error + 'v" where
  "getitem d k = (case d k of None \<Rightarrow> Inl (KeyError k) | Some v \<Rightarrow> Inr v)"

text \<open>A list comprehension whose body may raise: the first exception ends it.\<close>

fun emap :: "('a \<Rightarrow> error + 'b) \<Rightarrow> 'a list \<Rightarrow> error + 'b list" where
  "emap f [] = Inr []"
| "emap f (x # xs) = ebind (f x) (\<lambda>y. ebind (emap f xs) (\<lambda>ys. Inr (y # ys)))"

fun efilter :: "('a \<Rightarrow> error + bool) \<Rightarrow> 'a list \<Rightarrow> error + 'a list" where
  "efilter p [] = Inr []"
| "efilter p (x # xs) =
     ebind (p x) (\<lambda>b. ebind (efilter p xs) (\<lambda>ys. Inr (if b then x # ys else ys)))"

text \<open>\<^verbatim>\<open>len(v)\<close> and iteration over \<open>v\<close>: a string iterates over its characters.\<close>

fun len_val :: "pyval \<Rightarrow> nat" where
  "len_val (Str s) = length s"
| "len_val (Lst xs) = length xs"

fun iter_val :: "pyval \<Rightarrow> pystr list" where
  "iter_val (Str s) = map (\<lambda>c. [c]) s"
| "iter_val (Lst xs) = xs"

section \<open>The bibliography patcher\<close>

definition patch_biblio :: "pystr \<Rightarrow> pystr" where
  "patch_biblio bibtex_code =
     replace (ustr ''Yahalom-Mack, Naama, Eliyahu-Behar, Adi'')
             (ustr ''Yahalom-Mack, Naama and Eliyahu-Behar, Adi'')
       (replace (ustr ''Ringe, Donald A., Jr.,'') (ustr ''Ringe, Donald A. Jr.'')
          bibtex_code)"

section \<open>The citation resolver\<close>

text \<open>
  \<^verbatim>\<open>re.match(REGEX_REFERENCE, s)\<close> with
  \<^verbatim>\<open>REGEX_REFERENCE = r'\\cite(?:p|t|alt)(?:\[([^\]]+)\])?\{([^}]*)\}'\<close>:
  the match is anchored at the start of \<open>s\<close> and need not reach its end. The three
  command names start with different characters, so at most one alternative applies.
  Both character classes are greedy and are followed by the one character they exclude,
  so giving characters back never helps. The result is \<^verbatim>\<open>match.groups()\<close>: the pages
  (\<^verbatim>\<open>None\<close> when the optional group took no part) and the key.
\<close>

definition strip_prefix :: "pystr \<Rightarrow> pystr \<Rightarrow> pystr option" where
  "strip_prefix p s = (if prefix p s then Some (drop (length p) s) else None)"

definition rbracket :: nat where
  "rbracket = 93"

definition match_cite :: "pystr \<Rightarrow> pystr option" where
  "match_cite s =
     (case strip_prefix (backslash # ustr ''cite'') s of
        None \<Rightarrow> None
      | Some s1 \<Rightarrow>
          (case strip_prefix (ustr ''p'') s1 of
             Some s2 \<Rightarrow> Some s2
           | None \<Rightarrow>
               (case strip_prefix (ustr ''t'') s1 of
                  Some s2 \<Rightarrow> Some s2
                | None \<Rightarrow> strip_prefix (ustr ''alt'') s1)))"

definition match_pages :: "pystr \<Rightarrow> (pystr \<times> pystr) option" where
  "match_pages s =
     (case strip_prefix (ustr ''['') s of
        None \<Rightarrow> None
      | Some s1 \<Rightarrow>
          (if takeWhile (\<lambda>x. x \<noteq> rbracket) s1 \<noteq> [] \<and> dropWhile (\<lambda>x. x \<noteq> rbracket) s1 \<noteq> []
           then Some (takeWhile (\<lambda>x. x \<noteq> rbracket) s1, drop 1 (dropWhile (\<lambda>x. x \<noteq> rbracket) s1))
           else None))"

definition match_key :: "pystr \<Rightarrow> pystr option" where
  "match_key s =
     (case strip_prefix (ustr ''{'') s of
        None \<Rightarrow> None
      | Some s1 \<Rightarrow>
          (if dropWhile (\<lambda>x. x \<noteq> rbrace) s1 \<noteq> [] then Some (takeWhile (\<lambda>x. x \<noteq> rbrace) s1)
           else None))"

definition match_reference :: "pystr \<Rightarrow> (pystr option \<times> pystr) option" where
  "match_reference s =
     (case match_cite s of
        None \<Rightarrow> None
      | Some s1 \<Rightarrow>
          (case match_pages s1 of
             Some (pages, s2) \<Rightarrow>
               (case match_key s2 of
                  Some bibkey \<Rightarrow> Some (Some pages, bibkey)
                | None \<Rightarrow> map_option (Pair None) (match_key s1))
           | None \<Rightarrow> map_option (Pair None) (match_key s1)))"

text \<open>
  \<^verbatim>\<open>add_source\<close> changes the row in place; the model returns the changed row.
  \<^verbatim>\<open>re.match\<close> raises \<^verbatim>\<open>TypeError\<close> when the reference is not a string. \<^verbatim>\<open>if pages\<close>
  is false for \<^verbatim>\<open>None\<close> and for the empty string.
\<close>

definition add_source :: "pydict \<Rightarrow> error + pydict" where
  "add_source row =
     ebind (getitem row (ustr ''reference'')) (\<lambda>v.
       case v of
         Lst xs \<Rightarrow> Inl TypeError
       | Str s \<Rightarrow>
           (case match_reference s of
              Some (pages, bibkey) \<Rightarrow>
                Inr (row(ustr ''Source'' \<mapsto>
                  Lst [case pages of
                         None \<Rightarrow> bibkey
                       | Some p \<Rightarrow>
                           (if p \<noteq> []
                            then bibkey @ ustr ''['' @ replace (ustr '';'') (ustr '','') p @ ustr '']''
                            else bibkey)]))
            | None \<Rightarrow>
                ebind (getitem row (ustr ''reference'')) (\<lambda>v'.
                  Inr (row(ustr ''Source_comment'' \<mapsto> v')))))"

section \<open>The language table\<close>

text \<open>
  The comprehension unpacks each pair of the table as \<^verbatim>\<open>new_key, old_key\<close>: the first
  component is the key written, the second the column read.
\<close>

definition LANGUAGE_COLUMN_MAP :: "(pystr \<times> pystr) list" where
  "LANGUAGE_COLUMN_MAP =
     [(ustr ''ID'', ustr ''id''),
      (ustr ''Glottocode'', ustr ''id''),
      (ustr ''Family_ID'', ustr ''family_id''),
      (ustr ''Parent_ID'', ustr ''parent_id''),
      (ustr ''Name'', ustr ''name''),
      (ustr ''Latitude'', ustr ''latitude''),
      (ustr ''Longitude'', ustr ''longitude''),
      (ustr ''ISO639P3code'', ustr ''iso639P3code''),
      (ustr ''reference'', ustr ''reference'')]"

text \<open>
  \<^verbatim>\<open>{new_key: row[old_key] for new_key, old_key in column_map}\<close>, written into \<open>acc\<close>
  pair by pair: a later pair overwrites an earlier one with the same \<open>new_key\<close>, and a
  column that the row lacks raises \<^verbatim>\<open>KeyError\<close>.
\<close>

fun rename_columns :: "row \<Rightarrow> (pystr \<times> pystr) list \<Rightarrow> pydict \<Rightarrow> error + pydict" where
  "rename_columns row [] acc = Inr acc"
| "rename_columns row ((new_key, old_key) # column_map) acc =
     ebind (getitem row old_key) (\<lambda>v. rename_columns row column_map (acc(new_key \<mapsto> Str v)))"

definition language_row :: "row \<Rightarrow> error + pydict" where
  "language_row row = rename_columns row LANGUAGE_COLUMN_MAP Map.empty"

definition language_table :: "row list \<Rightarrow> error + pydict list" where
  "language_table raw_data = ebind (emap language_row raw_data) (emap add_source)"

section \<open>The value table\<close>

text \<open>
  \<^verbatim>\<open>code_id_map.get(...)\<close> gives \<^verbatim>\<open>None\<close> for a missing pair; \<^verbatim>\<open>if code_id\<close> is false
  for \<^verbatim>\<open>None\<close> and for the empty string.
\<close>

definition make_value ::
  "row \<Rightarrow> (pystr \<rightharpoonup> row) \<Rightarrow> (pystr \<times> pystr \<rightharpoonup> pystr) \<Rightarrow> pystr \<Rightarrow> error + row" where
  "make_value row code_table code_id_map param_id =
     ebind (getitem row (ustr ''id'')) (\<lambda>lang_id.
     ebind (getitem row param_id) (\<lambda>cell.
       let value_row =
             [ustr ''ID'' \<mapsto> lang_id @ ustr ''-'' @ param_id,
              ustr ''Language_ID'' \<mapsto> lang_id,
              ustr ''Parameter_ID'' \<mapsto> param_id]
       in case code_id_map (param_id, cell) of
            None \<Rightarrow> Inr (value_row(ustr ''Value'' \<mapsto> cell))
          | Some code_id \<Rightarrow>
              (if code_id \<noteq> []
               then ebind (getitem code_table code_id) (\<lambda>code.
                    ebind (getitem code (ustr ''Name'')) (\<lambda>name.
                      Inr (value_row(ustr ''Code_ID'' \<mapsto> code_id, ustr ''Value'' \<mapsto> name))))
               else Inr (value_row(ustr ''Value'' \<mapsto> cell)))))"

text \<open>
  \<^verbatim>\<open>collections.OrderedDict((code['ID'], code) for code in codes)\<close>: a new key goes to
  the end, a key seen before keeps its place and takes the new value.
\<close>

fun build_code_table :: "row list \<Rightarrow> (pystr \<times> row) list \<Rightarrow> error + (pystr \<times> row) list" where
  "build_code_table [] acc = Inr acc"
| "build_code_table (code # codes) acc =
     ebind (getitem code (ustr ''ID'')) (\<lambda>code_id.
       build_code_table codes (AList.update code_id code acc))"

fun build_code_id_map ::
  "row list \<Rightarrow> (pystr \<times> pystr \<rightharpoonup> pystr) \<Rightarrow> error + (pystr \<times> pystr \<rightharpoonup> pystr)" where
  "build_code_id_map [] acc = Inr acc"
| "build_code_id_map (code # codes) acc =
     ebind (getitem code (ustr ''Parameter_ID'')) (\<lambda>parameter_id.
     ebind (getitem code (ustr ''Spreadsheet_Value'')) (\<lambda>spreadsheet_value.
     ebind (getitem code (ustr ''ID'')) (\<lambda>code_id.
       build_code_id_map codes (acc((parameter_id, spreadsheet_value) \<mapsto> code_id)))))"

definition parameter_ids :: "row list \<Rightarrow> error + pystr list" where
  "parameter_ids parameter_table = emap (\<lambda>param. getitem param (ustr ''ID'')) parameter_table"

text \<open>
  \<^verbatim>\<open>[make_value(row, ...) for row in raw_data for param_id in parameter_ids]\<close>: the
  parameters are the inner loop.
\<close>

definition value_table ::
  "row list \<Rightarrow> (pystr \<rightharpoonup> row) \<Rightarrow> (pystr \<times> pystr \<rightharpoonup> pystr) \<Rightarrow> pystr list \<Rightarrow> error + row list" where
  "value_table raw_data code_table code_id_map param_ids =
     ebind (emap (\<lambda>row. emap (make_value row code_table code_id_map) param_ids) raw_data)
       (\<lambda>rows. Inr (concat rows))"

section \<open>The example table\<close>

definition EXAMPLE_COLUMNS :: "pystr list" where
  "EXAMPLE_COLUMNS =
     [ustr ''lang_id'', ustr ''text'', ustr ''gloss'', ustr ''trans'', ustr ''reference'']"

text \<open>
  \<^verbatim>\<open>dict(zip(EXAMPLE_COLUMNS, example))\<close>: \<^verbatim>\<open>zip\<close> stops at the shorter list, and the
  five column names are distinct.
\<close>

definition raw_example :: "pystr list \<Rightarrow> row" where
  "raw_example example = map_of (zip EXAMPLE_COLUMNS example)"

definition fix_example_lang_id :: "pystr \<Rightarrow> pystr" where
  "fix_example_lang_id language_id =
     (if language_id = ustr ''wara1247'' then ustr ''wara1300'' else language_id)"

definition make_example :: "(nat \<Rightarrow> pystr) \<Rightarrow> row \<Rightarrow> error + pydict" where
  "make_example uc example =
     ebind (getitem example (ustr ''lang_id'')) (\<lambda>lang_id.
     ebind (getitem example (ustr ''text'')) (\<lambda>text.
     ebind (getitem example (ustr ''gloss'')) (\<lambda>gloss.
     ebind (getitem example (ustr ''trans'')) (\<lambda>trans.
     ebind (getitem example (ustr ''reference'')) (\<lambda>reference.
       Inr [ustr ''Language_ID'' \<mapsto> Str (fix_example_lang_id lang_id),
            ustr ''Primary_Text'' \<mapsto> Str (detex uc text),
            ustr ''Analyzed_Word'' \<mapsto> Lst (map (detex uc) (split text)),
            ustr ''Gloss'' \<mapsto> Lst (map (detex uc) (split gloss)),
            ustr ''Translated_Text'' \<mapsto> Str (strip trans),
            ustr ''reference'' \<mapsto> Str reference])))))"

text \<open>
  The numbering loop. \<open>examples_per_language\<close> is the \<^verbatim>\<open>collections.Counter\<close>: a
  missing key counts as 0. A list cannot be a key of the counter (\<^verbatim>\<open>TypeError\<close>).
\<close>

fun number_examples :: "(pystr \<rightharpoonup> nat) \<Rightarrow> pydict list \<Rightarrow> error + pydict list" where
  "number_examples examples_per_language [] = Inr []"
| "number_examples examples_per_language (example # examples) =
     ebind (getitem example (ustr ''Language_ID'')) (\<lambda>v.
       case v of
         Lst xs \<Rightarrow> Inl TypeError
       | Str language_id \<Rightarrow>
           (let n = (case examples_per_language language_id of None \<Rightarrow> 0 | Some k \<Rightarrow> k) + 1
            in ebind (add_source
                        (example(ustr ''ID'' \<mapsto> Str (language_id @ ustr ''-'' @ str_nat n))))
                 (\<lambda>example'.
                    ebind (number_examples (examples_per_language(language_id \<mapsto> n)) examples)
                      (\<lambda>examples'. Inr (example' # examples')))))"

section \<open>The alignment validator\<close>

text \<open>
  \<^verbatim>\<open>zip_longest(xs, ys, fillvalue=0)\<close>. The fill value is the integer 0 on both
  sides; on the side of the tokens it is not a string, so the tokens are passed as
  \<open>Some token\<close> and the fill value as \<open>None\<close>. Calling \<^verbatim>\<open>ljust\<close> on it raises
  \<^verbatim>\<open>AttributeError\<close>.
\<close>

fun zip_longest :: "'a list \<Rightarrow> 'b list \<Rightarrow> 'a \<Rightarrow> 'b \<Rightarrow> ('a \<times> 'b) list" where
  "zip_longest [] [] fa fb = []"
| "zip_longest (x # xs) [] fa fb = (x, fb) # zip_longest xs [] fa fb"
| "zip_longest [] (y # ys) fa fb = (fa, y) # zip_longest [] ys fa fb"
| "zip_longest (x # xs) (y # ys) fa fb = (x, y) # zip_longest xs ys fa fb"

definition pad_tokens :: "pystr list \<Rightarrow> nat list \<Rightarrow> error + pystr list" where
  "pad_tokens tokens widths =
     emap (\<lambda>(token, width).
             case token of None \<Rightarrow> Inl AttributeError | Some t \<Rightarrow> Inr (ljust t width))
          (zip_longest (map Some tokens) widths None 0)"

definition render_example :: "pydict \<Rightarrow> error + pystr" where
  "render_example example =
     ebind (getitem example (ustr ''Analyzed_Word'')) (\<lambda>words.
     ebind (getitem example (ustr ''Gloss'')) (\<lambda>glosses.
     ebind (getitem example (ustr ''ID'')) (\<lambda>example_id.
       let id_width = len_val example_id;
           widths = map (\<lambda>(w, g). max (length w) (length g))
                      (zip (iter_val words) (iter_val glosses))
       in ebind (pad_tokens (iter_val words) widths) (\<lambda>padded_words.
          ebind (pad_tokens (iter_val glosses) widths) (\<lambda>padded_glosses.
            case example_id of
              Lst xs \<Rightarrow> Inl Unmodelled
            | Str i \<Rightarrow>
                Inr (ustr ''('' @ i @ ustr '')  '' @ rstrip (join (ustr ''  '') padded_words)
                     @ [newline] @ replicate id_width space @ ustr ''    ''
                     @ rstrip (join (ustr ''  '') padded_glosses)))))))"

definition misaligned :: "pydict \<Rightarrow> error + bool" where
  "misaligned example =
     ebind (getitem example (ustr ''Analyzed_Word'')) (\<lambda>words.
     ebind (getitem example (ustr ''Gloss'')) (\<lambda>glosses.
       Inr (len_val words \<noteq> len_val glosses)))"

text \<open>
  The result is what is printed to \<^verbatim>\<open>sys.stderr\<close>, one string for each call of
  \<^verbatim>\<open>print\<close> (the empty string for the call that prints an empty line). When an
  exception ends the function, the model keeps the exception only.
\<close>

definition warn_about_glosses :: "pydict list \<Rightarrow> error + pystr list" where
  "warn_about_glosses example_table =
     ebind (efilter misaligned example_table) (\<lambda>mismatched_examples.
       if mismatched_examples \<noteq> []
       then ebind (emap render_example mismatched_examples) (\<lambda>rendered.
              Inr (ustr ''ERROR: Misaligned glosses in examples:''
                   # concat (map (\<lambda>r. [[], r]) rendered)))
       else Inr [])"

section \<open>The conversion\<close>

text \<open>
  The part of \<^verbatim>\<open>cmd_makecldf\<close> that builds the example table: the comprehension, the
  numbering loop with \<^verbatim>\<open>add_source\<close>, and the validator. It returns the table and what
  was printed.
\<close>

definition example_table ::
  "(nat \<Rightarrow> pystr) \<Rightarrow> pystr list list \<Rightarrow> error + pydict list \<times> pystr list" where
  "example_table uc example_rows =
     ebind (emap (make_example uc) (map raw_example example_rows)) (\<lambda>examples.
     ebind (number_examples Map.empty examples) (\<lambda>numbered.
     ebind (warn_about_glosses numbered) (\<lambda>printed.
       Inr (numbered, printed))))"

record cldf_objects =
  Sources :: pystr
  LanguageTable :: "pydict list"
  ParameterTable :: "row list"
  CodeTable :: "row list"
  ValueTable :: "row list"
  ExampleTable :: "pydict list"
  Printed :: "pystr list"

text \<open>
  \<^verbatim>\<open>cmd_makecldf\<close> on the contents of the five input files, in the order of the source;
  the first exception ends the conversion.
\<close>

definition cmd_makecldf ::
  "(nat \<Rightarrow> pystr) \<Rightarrow> row list \<Rightarrow> pystr list list \<Rightarrow> pystr \<Rightarrow> row list \<Rightarrow> row list
     \<Rightarrow> error + cldf_objects" where
  "cmd_makecldf uc raw_data example_rows bibtex parameter_table codes =
     ebind (build_code_table codes []) (\<lambda>code_table.
     ebind (language_table raw_data) (\<lambda>languages.
     ebind (parameter_ids parameter_table) (\<lambda>param_ids.
     ebind (build_code_id_map (map snd code_table) Map.empty) (\<lambda>code_id_map.
     ebind (value_table raw_data (map_of code_table) code_id_map param_ids) (\<lambda>vals.
     ebind (example_table uc example_rows) (\<lambda>(examples, printed).
       Inr \<lparr>Sources = patch_biblio bibtex,
            LanguageTable = languages,
            ParameterTable = parameter_table,
            CodeTable = map snd code_table,
            ValueTable = vals,
            ExampleTable = examples,
            Printed = printed\<rparr>))))))"

section \<open>Replacement and occurrences\<close>

lemmas str_defs = ustr_def backslash_def space_def newline_def rbrace_def rbracket_def
  textsc_open_def rightarrow_macro_def emptyset_macro_def tld_macro_def

lemma replace_absent: "old \<noteq> [] \<Longrightarrow> \<not> sublist old s \<Longrightarrow> replace old new s = s"
  by (induction s) (auto simp: sublist_Cons_right)

lemma sub_textsc_absent: "\<not> sublist textsc_open s \<Longrightarrow> sub_textsc uc s = s"
  by (induction s) (auto simp: sublist_Cons_right)

lemma prefix_replace:
  assumes "old \<noteq> []" and "new \<noteq> []" and "hd new \<notin> set q"
  shows "prefix q (replace old new s) \<Longrightarrow> prefix q s"
  using assms
proof (induction old new s arbitrary: q rule: replace.induct)
  case (1 old new)
  then show ?case by simp
next
  case (2 old new c cs)
  show ?case
  proof (cases "prefix old (c # cs)")
    case True
    with 2 have "prefix q (new @ replace old new (drop (length old) (c # cs)))" by simp
    with 2(5,6) have "q = []" by (cases q; cases new) auto
    then show ?thesis by simp
  next
    case False
    with 2 have p: "prefix q (c # replace old new cs)" by simp
    show ?thesis
    proof (cases q)
      case Nil
      then show ?thesis by simp
    next
      case (Cons x q')
      with p have "x = c" "prefix q' (replace old new cs)" by auto
      moreover from Cons 2(6) have "hd new \<notin> set q'" by simp
      ultimately have "prefix q' cs" using 2(2)[of q'] False 2(4,5) by simp
      with \<open>x = c\<close> Cons show ?thesis by simp
    qed
  qed
qed

lemma sublist_append_skip:
  "q \<noteq> [] \<Longrightarrow> hd q \<notin> set ys \<Longrightarrow> sublist q (ys @ r) \<Longrightarrow> sublist q r"
  by (induction ys) (auto simp: sublist_Cons_right prefix_Cons neq_Nil_conv)

lemma sublist_replace:
  assumes "old \<noteq> []" and "new \<noteq> []" and "q \<noteq> []"
    and "hd new \<notin> set (tl q)" and "hd q \<notin> set (tl new)"
    and "\<not> prefix q new" and "\<not> prefix new q"
  shows "sublist q (replace old new s) \<Longrightarrow> sublist q s \<and> q \<noteq> old"
  using assms
proof (induction old new s rule: replace.induct)
  case (1 old new)
  then show ?case by simp
next
  case (2 old new c cs)
  note old = \<open>old \<noteq> []\<close> and new = \<open>new \<noteq> []\<close> and q = \<open>q \<noteq> []\<close>
  show ?case
  proof (cases "prefix old (c # cs)")
    case True
    with old 2(3) have occ: "sublist q (new @ replace old new (drop (length old) (c # cs)))"
      by simp
    obtain n0 nt where nw: "new = n0 # nt"
      using new by (cases new) auto
    have "\<not> prefix q (new @ replace old new (drop (length old) (c # cs)))"
      using \<open>\<not> prefix q new\<close> \<open>\<not> prefix new q\<close> by (auto simp: prefix_append)
    with occ nw have tail: "sublist q (nt @ replace old new (drop (length old) (c # cs)))"
      by (simp add: sublist_Cons_right)
    from 2(8) nw have "hd q \<notin> set nt"
      by simp
    with q have "sublist q (replace old new (drop (length old) (c # cs)))"
      using tail by (rule sublist_append_skip)
    then have "sublist q (drop (length old) (c # cs)) \<and> q \<noteq> old"
      by (rule 2(1)[OF old True _ old new q 2(7-10)])
    moreover have "sublist (drop (length old) (c # cs)) (c # cs)"
      by (rule sublist_drop)
    ultimately show ?thesis
      by (meson sublist_order.order_trans)
  next
    case False
    with old 2(3) have occ: "sublist q (c # replace old new cs)"
      by simp
    then consider (here) "prefix q (c # replace old new cs)" | (later) "sublist q (replace old new cs)"
      by (auto simp: sublist_Cons_right)
    then show ?thesis
    proof cases
      case here
      obtain x q' where qq: "q = x # q'"
        using q by (cases q) auto
      with here have "x = c" and pre: "prefix q' (replace old new cs)"
        by auto
      from qq 2(7) have "hd new \<notin> set q'"
        by simp
      then have "prefix q' cs"
        using pre by (rule prefix_replace[OF old new])
      with \<open>x = c\<close> qq have "prefix q (c # cs)"
        by simp
      with False show ?thesis
        by (auto simp: sublist_Cons_right)
    next
      case later
      then have "sublist q cs \<and> q \<noteq> old"
        by (rule 2(2)[OF old False _ old new q 2(7-10)])
      then show ?thesis
        by (auto simp: sublist_Cons_right)
    qed
  qed
qed

lemma sublist_replace_char:
  assumes "old \<noteq> []" and "q \<noteq> []" and "x \<notin> set q"
    and "sublist q (replace old [x] s)"
  shows "sublist q s \<and> q \<noteq> old"
proof -
  obtain h q' where q: "q = h # q'"
    using assms(2) by (cases q) auto
  with assms(3) have "x \<noteq> h" and "x \<notin> set q'"
    by auto
  with q show ?thesis
    using assms(1,4) by (intro sublist_replace[of old "[x]" q s]) simp_all
qed

lemma patch_biblio_no_ringe:
  "\<not> sublist (ustr ''Ringe, Donald A., Jr.,'') (patch_biblio s)"
proof
  assume "sublist (ustr ''Ringe, Donald A., Jr.,'') (patch_biblio s)"
  then have "sublist (ustr ''Ringe, Donald A., Jr.,'')
               (replace (ustr ''Ringe, Donald A., Jr.,'') (ustr ''Ringe, Donald A. Jr.'') s)
             \<and> ustr ''Ringe, Donald A., Jr.,'' \<noteq> ustr ''Yahalom-Mack, Naama, Eliyahu-Behar, Adi''"
    unfolding patch_biblio_def
    by (rule sublist_replace[rotated -1]) (simp_all add: ustr_def)
  then have "sublist (ustr ''Ringe, Donald A., Jr.,'') s
             \<and> ustr ''Ringe, Donald A., Jr.,'' \<noteq> ustr ''Ringe, Donald A., Jr.,''"
    by (intro sublist_replace[of _ "ustr ''Ringe, Donald A. Jr.''"]) (simp_all add: ustr_def)
  then show False
    by simp
qed

lemma patch_biblio_no_yahalom:
  "\<not> sublist (ustr ''Yahalom-Mack, Naama, Eliyahu-Behar, Adi'') (patch_biblio s)"
proof
  assume "sublist (ustr ''Yahalom-Mack, Naama, Eliyahu-Behar, Adi'') (patch_biblio s)"
  then have "sublist (ustr ''Yahalom-Mack, Naama, Eliyahu-Behar, Adi'')
               (replace (ustr ''Ringe, Donald A., Jr.,'') (ustr ''Ringe, Donald A. Jr.'') s)
             \<and> ustr ''Yahalom-Mack, Naama, Eliyahu-Behar, Adi''
                 \<noteq> ustr ''Yahalom-Mack, Naama, Eliyahu-Behar, Adi''"
    unfolding patch_biblio_def
    by (rule sublist_replace[rotated -1]) (simp_all add: ustr_def)
  then show False
    by simp
qed

lemma patch_biblio_idem: "patch_biblio (patch_biblio s) = patch_biblio s"
proof -
  have "replace (ustr ''Ringe, Donald A., Jr.,'') (ustr ''Ringe, Donald A. Jr.'') (patch_biblio s)
          = patch_biblio s"
    using patch_biblio_no_ringe by (intro replace_absent) (simp_all add: ustr_def)
  moreover have "replace (ustr ''Yahalom-Mack, Naama, Eliyahu-Behar, Adi'')
                   (ustr ''Yahalom-Mack, Naama and Eliyahu-Behar, Adi'') (patch_biblio s)
          = patch_biblio s"
    using patch_biblio_no_yahalom by (intro replace_absent) (simp_all add: ustr_def)
  ultimately show ?thesis
    by (simp add: patch_biblio_def[of "patch_biblio s"])
qed

lemma detex_plain:
  assumes "\<not> sublist textsc_open s"
  shows "detex uc s
           = replace tld_macro (ustr ''~'')
               (replace emptyset_macro [8709] (replace rightarrow_macro [8594] s))"
    and "\<not> sublist rightarrow_macro (detex uc s)"
    and "\<not> sublist emptyset_macro (detex uc s)"
    and "\<not> sublist tld_macro (detex uc s)"
    and "\<not> sublist textsc_open (detex uc s)"
proof -
  let ?t1 = "replace rightarrow_macro [8594] s"
  let ?t2 = "replace emptyset_macro [8709] ?t1"
  let ?t3 = "replace tld_macro [126] ?t2"
  have tilde: "ustr ''~'' = [126]"
    by (simp add: ustr_def)
  have step: "sublist q (replace old [x] t) \<Longrightarrow> old \<noteq> [] \<Longrightarrow> q \<noteq> [] \<Longrightarrow> x \<notin> set q
                \<Longrightarrow> sublist q t \<and> q \<noteq> old" for q old x t
    using sublist_replace_char by blast
  have T: "\<not> sublist textsc_open ?t3"
    using assms by (auto dest!: step simp: str_defs)
  have A: "\<not> sublist rightarrow_macro ?t3"
    by (auto dest!: step simp: str_defs)
  have B: "\<not> sublist emptyset_macro ?t3"
    by (auto dest!: step simp: str_defs)
  have C: "\<not> sublist tld_macro ?t3"
    by (auto dest!: step simp: str_defs)
  show eq: "detex uc s
           = replace tld_macro (ustr ''~'')
               (replace emptyset_macro [8709] (replace rightarrow_macro [8594] s))"
    using T by (simp add: detex_def tilde sub_textsc_absent)
  show "\<not> sublist rightarrow_macro (detex uc s)"
    using A by (simp add: eq tilde)
  show "\<not> sublist emptyset_macro (detex uc s)"
    using B by (simp add: eq tilde)
  show "\<not> sublist tld_macro (detex uc s)"
    using C by (simp add: eq tilde)
  show "\<not> sublist textsc_open (detex uc s)"
    using T by (simp add: eq tilde)
qed

lemma detex_absent:
  assumes "\<not> sublist rightarrow_macro s" and "\<not> sublist emptyset_macro s"
    and "\<not> sublist tld_macro s" and "\<not> sublist textsc_open s"
  shows "detex uc s = s"
proof -
  have "replace rightarrow_macro [8594] s = s"
    using assms(1) by (intro replace_absent) (simp_all add: rightarrow_macro_def)
  moreover have "replace emptyset_macro [8709] s = s"
    using assms(2) by (intro replace_absent) (simp_all add: emptyset_macro_def)
  moreover have "replace tld_macro (ustr ''~'') s = s"
    using assms(3) by (intro replace_absent) (simp_all add: tld_macro_def)
  ultimately show ?thesis
    using assms(4) by (simp add: detex_def sub_textsc_absent)
qed

lemma takeWhile_until:
  "c \<notin> set xs \<Longrightarrow> takeWhile (\<lambda>x. x \<noteq> c) (xs @ c # ys) = xs"
  "c \<notin> set xs \<Longrightarrow> dropWhile (\<lambda>x. x \<noteq> c) (xs @ c # ys) = c # ys"
  by (induction xs) auto







section \<open>The markup cleaner: examples and pass-through\<close>




section \<open>Idempotence\<close>

text \<open>
  Applying \<open>detex\<close> twice is not the same as applying it once: the small-caps rule
  removes \<^verbatim>\<open>\textsc{}\<close> from \<^verbatim>\<open>\tl\textsc{}d{}\<close> and leaves \<^verbatim>\<open>\tld{}\<close>, which a second
  pass replaces by the tilde.
\<close>

theorem detex_not_idempotent:
  "detex (\<lambda>c. [c]) (detex (\<lambda>c. [c]) (backslash # ustr ''tl'' @ backslash # ustr ''textsc{}d{}''))
     \<noteq> detex (\<lambda>c. [c]) (backslash # ustr ''tl'' @ backslash # ustr ''textsc{}d{}'')"
  by (simp add: detex_def str_defs upper_def upper_char_def)

text \<open>
  Claim C3, as amended. \<open>patch_biblio\<close> is idempotent on every string. \<open>detex\<close> is
  idempotent on every string whose image under \<open>detex\<close> holds none of the four
  macros; these are in particular all strings in which no \<^verbatim>\<open>\textsc{\<close> starts, and
  the strings \<^verbatim>\<open>\textsc{r.pst}-3sg\<close> and \<^verbatim>\<open>\textsc{abc\<close>.
\<close>

theorem patch_biblio_detex_idempotent:
  "patch_biblio (patch_biblio s) = patch_biblio s
   \<and> (\<not> sublist rightarrow_macro (detex uc t) \<and> \<not> sublist emptyset_macro (detex uc t)
        \<and> \<not> sublist tld_macro (detex uc t) \<and> \<not> sublist textsc_open (detex uc t)
      \<longrightarrow> detex uc (detex uc t) = detex uc t)
   \<and> (\<not> sublist textsc_open t \<longrightarrow> detex uc (detex uc t) = detex uc t)
   \<and> detex uc (detex uc (backslash # ustr ''textsc{r.pst}-3sg''))
       = detex uc (backslash # ustr ''textsc{r.pst}-3sg'')
   \<and> detex uc (detex uc (backslash # ustr ''textsc{abc''))
       = detex uc (backslash # ustr ''textsc{abc'')"
proof (intro conjI impI)
  show "patch_biblio (patch_biblio s) = patch_biblio s"
    by (rule patch_biblio_idem)
next
  assume "\<not> sublist rightarrow_macro (detex uc t) \<and> \<not> sublist emptyset_macro (detex uc t)
        \<and> \<not> sublist tld_macro (detex uc t) \<and> \<not> sublist textsc_open (detex uc t)"
  then show "detex uc (detex uc t) = detex uc t"
    by (intro detex_absent) simp_all
next
  assume "\<not> sublist textsc_open t"
  then show "detex uc (detex uc t) = detex uc t"
    by (intro detex_absent detex_plain)
next
  have v: "detex uc (backslash # ustr ''textsc{r.pst}-3sg'') = ustr ''R.PST-3sg''"
    by (simp add: detex_def str_defs upper_def upper_char_def)
  show "detex uc (detex uc (backslash # ustr ''textsc{r.pst}-3sg''))
       = detex uc (backslash # ustr ''textsc{r.pst}-3sg'')"
    unfolding v by (intro detex_absent) (simp_all add: str_defs sublist_Cons_right)
next
  have v: "detex uc (backslash # ustr ''textsc{abc'') = ustr ''ABC''"
    by (simp add: detex_def str_defs upper_def upper_char_def)
  show "detex uc (detex uc (backslash # ustr ''textsc{abc''))
       = detex uc (backslash # ustr ''textsc{abc'')"
    unfolding v by (intro detex_absent) (simp_all add: str_defs sublist_Cons_right)
qed

theorem patch_biblio_detex_idempotent_witness:
  "patch_biblio (patch_biblio (ustr ''author = {Ringe, Donald A., Jr., and X}''))
     = patch_biblio (ustr ''author = {Ringe, Donald A., Jr., and X}'')
   \<and> detex (\<lambda>c. [c]) (detex (\<lambda>c. [c]) (backslash # ustr ''textsc{a}'' @ backslash # ustr ''tld{}''))
     = detex (\<lambda>c. [c]) (backslash # ustr ''textsc{a}'' @ backslash # ustr ''tld{}'')
   \<and> detex (\<lambda>c. [c]) (detex (\<lambda>c. [c]) (backslash # ustr ''tld{}a $x$''))
     = detex (\<lambda>c. [c]) (backslash # ustr ''tld{}a $x$'')"
proof -
  let ?uc = "\<lambda>c::nat. [c]"
  let ?t = "backslash # ustr ''textsc{a}'' @ backslash # ustr ''tld{}''"
  note inst = patch_biblio_detex_idempotent
               [of "ustr ''author = {Ringe, Donald A., Jr., and X}''" ?uc]
  have v: "detex ?uc ?t = ustr ''A~''"
    by (simp add: detex_def str_defs upper_def upper_char_def)
  have "\<not> sublist rightarrow_macro (detex ?uc ?t) \<and> \<not> sublist emptyset_macro (detex ?uc ?t)
        \<and> \<not> sublist tld_macro (detex ?uc ?t) \<and> \<not> sublist textsc_open (detex ?uc ?t)"
    unfolding v by (simp add: str_defs sublist_Cons_right)
  then have 1: "detex ?uc (detex ?uc ?t) = detex ?uc ?t"
    by (rule inst[of ?t, THEN conjunct2, THEN conjunct1, rule_format])
  have "\<not> sublist textsc_open (backslash # ustr ''tld{}a $x$'')"
    by (simp add: str_defs sublist_Cons_right)
  then have 2: "detex ?uc (detex ?uc (backslash # ustr ''tld{}a $x$''))
             = detex ?uc (backslash # ustr ''tld{}a $x$'')"
    by (rule inst[of "backslash # ustr ''tld{}a $x$''", THEN conjunct2, THEN conjunct2,
                  THEN conjunct1, rule_format])
  have 0: "patch_biblio (patch_biblio (ustr ''author = {Ringe, Donald A., Jr., and X}''))
     = patch_biblio (ustr ''author = {Ringe, Donald A., Jr., and X}'')"
    by (rule inst[of ?t, THEN conjunct1])
  from 0 1 2 show ?thesis
    by (intro conjI)
qed

section \<open>The citation resolver: examples and the two fields\<close>

lemma ustr_eq_iff [simp]: "ustr a = ustr b \<longleftrightarrow> a = b"
proof -
  have "inj (of_char :: char \<Rightarrow> nat)"
    by (rule injI) simp
  then show ?thesis
    by (simp add: ustr_def inj_map_eq_map)
qed

lemmas match_defs = match_reference_def match_cite_def match_pages_def match_key_def
  strip_prefix_def

lemma match_citet_273:
  "match_reference (backslash # ustr ''citet[273]{bruce79alamblak}'')
     = Some (Some (ustr ''273''), ustr ''bruce79alamblak'')"
  by (simp add: match_defs str_defs)

lemma match_citep_foo:
  "match_reference (backslash # ustr ''citep{foo79bar}'') = Some (None, ustr ''foo79bar'')"
  by (simp add: match_defs str_defs)

lemma match_citet_12_14:
  "match_reference (backslash # ustr ''citet[12;14]{x}'') = Some (Some (ustr ''12;14''), ustr ''x'')"
  by (simp add: match_defs str_defs)

lemma match_pc: "match_reference (ustr ''p.c.'') = None"
  by (simp add: match_defs str_defs)

lemma split_at_first:
  assumes "dropWhile (\<lambda>x. x \<noteq> c) s \<noteq> []"
  shows "s = takeWhile (\<lambda>x. x \<noteq> c) s @ c # drop 1 (dropWhile (\<lambda>x. x \<noteq> c) s)"
    and "c \<notin> set (takeWhile (\<lambda>x. x \<noteq> c) s)"
proof -
  from assms have "hd (dropWhile (\<lambda>x. x \<noteq> c) s) = c"
    using hd_dropWhile[of "\<lambda>x. x \<noteq> c" s] by auto
  with assms have "dropWhile (\<lambda>x. x \<noteq> c) s = c # drop 1 (dropWhile (\<lambda>x. x \<noteq> c) s)"
    by (cases "dropWhile (\<lambda>x. x \<noteq> c) s") auto
  then show "s = takeWhile (\<lambda>x. x \<noteq> c) s @ c # drop 1 (dropWhile (\<lambda>x. x \<noteq> c) s)"
    by (metis takeWhile_dropWhile_id)
  show "c \<notin> set (takeWhile (\<lambda>x. x \<noteq> c) s)"
    by (auto dest: set_takeWhileD)
qed

lemma match_key_iff:
  "match_key s = Some bibkey \<longleftrightarrow>
     (\<exists>rest. s = ustr ''{'' @ bibkey @ ustr ''}'' @ rest \<and> rbrace \<notin> set bibkey)"
proof
  assume "match_key s = Some bibkey"
  then obtain s1 where s1: "s = ustr ''{'' @ s1" "dropWhile (\<lambda>x. x \<noteq> rbrace) s1 \<noteq> []"
    "bibkey = takeWhile (\<lambda>x. x \<noteq> rbrace) s1"
    by (auto simp: match_key_def strip_prefix_def prefix_def split: if_splits)
  from split_at_first[OF s1(2)] s1 show
    "\<exists>rest. s = ustr ''{'' @ bibkey @ ustr ''}'' @ rest \<and> rbrace \<notin> set bibkey"
    by (auto simp: ustr_def rbrace_def)
next
  assume "\<exists>rest. s = ustr ''{'' @ bibkey @ ustr ''}'' @ rest \<and> rbrace \<notin> set bibkey"
  then obtain rest where "s = ustr ''{'' @ (bibkey @ rbrace # rest)" "rbrace \<notin> set bibkey"
    by (auto simp: ustr_def rbrace_def)
  then show "match_key s = Some bibkey"
    by (simp add: match_key_def strip_prefix_def takeWhile_until)
qed

lemma match_pages_iff:
  "match_pages s = Some (pages, s2) \<longleftrightarrow>
     s = ustr ''['' @ pages @ ustr '']'' @ s2 \<and> pages \<noteq> [] \<and> rbracket \<notin> set pages"
proof
  assume "match_pages s = Some (pages, s2)"
  then obtain s1 where s1: "s = ustr ''['' @ s1" "dropWhile (\<lambda>x. x \<noteq> rbracket) s1 \<noteq> []"
    "pages = takeWhile (\<lambda>x. x \<noteq> rbracket) s1" "pages \<noteq> []"
    "s2 = drop 1 (dropWhile (\<lambda>x. x \<noteq> rbracket) s1)"
    by (auto simp: match_pages_def strip_prefix_def prefix_def split: if_splits)
  from split_at_first[OF s1(2)] s1 show
    "s = ustr ''['' @ pages @ ustr '']'' @ s2 \<and> pages \<noteq> [] \<and> rbracket \<notin> set pages"
    by (auto simp: ustr_def rbracket_def)
next
  assume "s = ustr ''['' @ pages @ ustr '']'' @ s2 \<and> pages \<noteq> [] \<and> rbracket \<notin> set pages"
  then have "s = ustr ''['' @ (pages @ rbracket # s2)" "rbracket \<notin> set pages" "pages \<noteq> []"
    by (auto simp: ustr_def rbracket_def)
  then show "match_pages s = Some (pages, s2)"
    by (simp add: match_pages_def strip_prefix_def takeWhile_until)
qed

lemma match_cite_iff:
  "match_cite s = Some s1 \<longleftrightarrow>
     (\<exists>cmd \<in> {ustr ''p'', ustr ''t'', ustr ''alt''}. s = backslash # ustr ''cite'' @ cmd @ s1)"
  by (auto simp: match_cite_def strip_prefix_def prefix_def ustr_def split: option.splits if_splits)

text \<open>
  The matcher and the pattern: \<open>match_reference\<close> succeeds exactly on the strings that
  start with \<^verbatim>\<open>\cite\<close>, one of the three command suffixes, an optional non-empty
  bracketed locator without a closing bracket in it, and a braced key without a closing
  brace in it; the groups are the locator and the key.
\<close>

lemma match_reference_iff:
  "match_reference s = Some (pages, bibkey) \<longleftrightarrow>
     (\<exists>cmd \<in> {ustr ''p'', ustr ''t'', ustr ''alt''}. \<exists>rest.
        rbrace \<notin> set bibkey \<and>
        (case pages of
           None \<Rightarrow> s = backslash # ustr ''cite'' @ cmd @ ustr ''{'' @ bibkey @ ustr ''}'' @ rest
         | Some p \<Rightarrow>
             p \<noteq> [] \<and> rbracket \<notin> set p \<and>
             s = backslash # ustr ''cite'' @ cmd @ ustr ''['' @ p @ ustr '']''
                   @ ustr ''{'' @ bibkey @ ustr ''}'' @ rest))"
  (is "?L \<longleftrightarrow> ?R")
proof
  assume ?L
  then obtain s1 where c: "match_cite s = Some s1"
    by (auto simp: match_reference_def split: option.splits)
  then obtain cmd where cmd: "cmd \<in> {ustr ''p'', ustr ''t'', ustr ''alt''}"
    "s = backslash # ustr ''cite'' @ cmd @ s1"
    by (auto simp: match_cite_iff)
  show ?R
  proof (cases pages)
    case None
    with \<open>?L\<close> c have "match_key s1 = Some bibkey"
      by (auto simp: match_reference_def split: option.splits)
    with cmd None show ?thesis
      by (auto simp: match_key_iff)
  next
    case (Some p)
    with \<open>?L\<close> c obtain s2 where "match_pages s1 = Some (p, s2)" "match_key s2 = Some bibkey"
      by (auto simp: match_reference_def split: option.splits)
    with cmd Some show ?thesis
      by (auto simp: match_key_iff match_pages_iff)
  qed
next
  assume ?R
  then obtain cmd rest where cmd: "cmd \<in> {ustr ''p'', ustr ''t'', ustr ''alt''}"
    and key: "rbrace \<notin> set bibkey"
    and s: "case pages of
           None \<Rightarrow> s = backslash # ustr ''cite'' @ cmd @ ustr ''{'' @ bibkey @ ustr ''}'' @ rest
         | Some p \<Rightarrow>
             p \<noteq> [] \<and> rbracket \<notin> set p \<and>
             s = backslash # ustr ''cite'' @ cmd @ ustr ''['' @ p @ ustr '']''
                   @ ustr ''{'' @ bibkey @ ustr ''}'' @ rest"
    by blast
  show ?L
  proof (cases pages)
    case None
    with s cmd have c: "match_cite s = Some (ustr ''{'' @ bibkey @ ustr ''}'' @ rest)"
      unfolding match_cite_iff by auto
    have k: "match_key (ustr ''{'' @ bibkey @ ustr ''}'' @ rest) = Some bibkey"
      using key by (auto simp: match_key_iff)
    have "match_pages (ustr ''{'' @ bibkey @ ustr ''}'' @ rest) = None"
      by (simp add: match_pages_def strip_prefix_def ustr_def)
    with c k None show ?thesis
      by (simp add: match_reference_def)
  next
    case (Some p)
    with s have p: "p \<noteq> []" "rbracket \<notin> set p"
      and s': "s = backslash # ustr ''cite'' @ cmd @ (ustr ''['' @ p @ ustr '']''
                   @ (ustr ''{'' @ bibkey @ ustr ''}'' @ rest))"
      by auto
    from s' cmd have c: "match_cite s = Some (ustr ''['' @ p @ ustr '']''
                   @ (ustr ''{'' @ bibkey @ ustr ''}'' @ rest))"
      unfolding match_cite_iff by auto
    have pg: "match_pages (ustr ''['' @ p @ ustr '']'' @ (ustr ''{'' @ bibkey @ ustr ''}'' @ rest))
            = Some (p, ustr ''{'' @ bibkey @ ustr ''}'' @ rest)"
      using p by (simp add: match_pages_iff)
    have k: "match_key (ustr ''{'' @ bibkey @ ustr ''}'' @ rest) = Some bibkey"
      using key by (auto simp: match_key_iff)
    from c pg k Some show ?thesis
      by (simp add: match_reference_def)
  qed
qed

lemma add_source_Str:
  "row (ustr ''reference'') = Some (Str r) \<Longrightarrow>
   add_source row =
     (case match_reference r of
        Some (pages, bibkey) \<Rightarrow>
          Inr (row(ustr ''Source'' \<mapsto>
            Lst [case pages of
                   None \<Rightarrow> bibkey
                 | Some p \<Rightarrow>
                     (if p \<noteq> []
                      then bibkey @ ustr ''['' @ replace (ustr '';'') (ustr '','') p @ ustr '']''
                      else bibkey)]))
      | None \<Rightarrow> Inr (row(ustr ''Source_comment'' \<mapsto> Str r)))"
  by (simp add: add_source_def getitem_def ebind_def split: option.splits)

text \<open>
  Claim C2. On a row whose reference is \<^verbatim>\<open>\citet[273]{bruce79alamblak}\<close>,
  \<open>add_source\<close> sets \<open>Source\<close> to the one-element list \<^verbatim>\<open>bruce79alamblak[273]\<close>; for
  \<^verbatim>\<open>\citep{foo79bar}\<close> to \<^verbatim>\<open>foo79bar\<close>; for \<^verbatim>\<open>\citet[12;14]{x}\<close> to \<^verbatim>\<open>x[12,14]\<close>.
  For every reference that the pattern does not match at its start, such as \<^verbatim>\<open>p.c.\<close>,
  it sets \<open>Source_comment\<close> to the whole reference and changes nothing else, so
  \<open>Source\<close> stays unset.
\<close>

theorem add_source_examples:
  assumes "row (ustr ''reference'') = Some (Str r)"
  shows "(r = backslash # ustr ''citet[273]{bruce79alamblak}'' \<longrightarrow>
            add_source row = Inr (row(ustr ''Source'' \<mapsto> Lst [ustr ''bruce79alamblak[273]''])))
       \<and> (r = backslash # ustr ''citep{foo79bar}'' \<longrightarrow>
            add_source row = Inr (row(ustr ''Source'' \<mapsto> Lst [ustr ''foo79bar''])))
       \<and> (r = backslash # ustr ''citet[12;14]{x}'' \<longrightarrow>
            add_source row = Inr (row(ustr ''Source'' \<mapsto> Lst [ustr ''x[12,14]''])))
       \<and> (match_reference r = None \<longrightarrow>
            add_source row = Inr (row(ustr ''Source_comment'' \<mapsto> Str r)))
       \<and> match_reference (ustr ''p.c.'') = None"
proof (intro conjI impI)
  assume "r = backslash # ustr ''citet[273]{bruce79alamblak}''"
  with assms show "add_source row = Inr (row(ustr ''Source'' \<mapsto> Lst [ustr ''bruce79alamblak[273]'']))"
    by (simp add: add_source_Str match_citet_273) (simp add: ustr_def)
next
  assume "r = backslash # ustr ''citep{foo79bar}''"
  with assms show "add_source row = Inr (row(ustr ''Source'' \<mapsto> Lst [ustr ''foo79bar'']))"
    by (simp add: add_source_Str match_citep_foo)
next
  assume "r = backslash # ustr ''citet[12;14]{x}''"
  with assms show "add_source row = Inr (row(ustr ''Source'' \<mapsto> Lst [ustr ''x[12,14]'']))"
    by (simp add: add_source_Str match_citet_12_14) (simp add: ustr_def)
next
  assume "match_reference r = None"
  with assms show "add_source row = Inr (row(ustr ''Source_comment'' \<mapsto> Str r))"
    by (simp add: add_source_Str)
next
  show "match_reference (ustr ''p.c.'') = None"
    by (rule match_pc)
qed

theorem add_source_examples_witness:
  "add_source [ustr ''reference'' \<mapsto> Str (backslash # ustr ''citet[273]{bruce79alamblak}'')]
     = Inr [ustr ''reference'' \<mapsto> Str (backslash # ustr ''citet[273]{bruce79alamblak}''),
            ustr ''Source'' \<mapsto> Lst [ustr ''bruce79alamblak[273]'']]
   \<and> add_source [ustr ''reference'' \<mapsto> Str (ustr ''p.c.'')]
     = Inr [ustr ''reference'' \<mapsto> Str (ustr ''p.c.''),
            ustr ''Source_comment'' \<mapsto> Str (ustr ''p.c.'')]"
  using add_source_examples
          [of "[ustr ''reference'' \<mapsto> Str (backslash # ustr ''citet[273]{bruce79alamblak}'')]"
              "backslash # ustr ''citet[273]{bruce79alamblak}''"]
        add_source_examples
          [of "[ustr ''reference'' \<mapsto> Str (ustr ''p.c.'')]" "ustr ''p.c.''"]
  by simp

lemmas lang_defs = language_row_def LANGUAGE_COLUMN_MAP_def getitem_def ebind_def

lemma language_row_fresh:
  assumes "language_row raw = Inr lang"
  shows "(\<exists>r. lang (ustr ''reference'') = Some (Str r))
         \<and> lang (ustr ''Source'') = None \<and> lang (ustr ''Source_comment'') = None"
  using assms by (auto simp: lang_defs split: option.splits)

lemma make_example_fresh:
  assumes "make_example uc ex = Inr e"
  shows "(\<exists>r. (e(ustr ''ID'' \<mapsto> v)) (ustr ''reference'') = Some (Str r))
         \<and> (e(ustr ''ID'' \<mapsto> v)) (ustr ''Source'') = None
         \<and> (e(ustr ''ID'' \<mapsto> v)) (ustr ''Source_comment'') = None"
  using assms by (auto simp: make_example_def getitem_def ebind_def split: option.splits)

text \<open>
  Claim C9. On every row that has a string under \<open>reference\<close> and neither \<open>Source\<close>
  nor \<open>Source_comment\<close>, \<open>add_source\<close> returns normally and afterwards exactly one of
  the two keys is set: never both, never neither. The rows that \<^verbatim>\<open>cmd_makecldf\<close> hands
  to it are of this kind: every language row that \<open>language_row\<close> builds, and every
  example that \<open>make_example\<close> builds, with its \<open>ID\<close> added.
\<close>

theorem add_source_exactly_one:
  "(row (ustr ''reference'') = Some (Str r) \<and> row (ustr ''Source'') = None
      \<and> row (ustr ''Source_comment'') = None
    \<longrightarrow> (\<exists>row'. add_source row = Inr row'
           \<and> (row' (ustr ''Source'') = None) \<noteq> (row' (ustr ''Source_comment'') = None)))
   \<and> (language_row raw = Inr lang
    \<longrightarrow> (\<exists>row'. add_source lang = Inr row'
           \<and> (row' (ustr ''Source'') = None) \<noteq> (row' (ustr ''Source_comment'') = None)))
   \<and> (make_example uc ex = Inr e
    \<longrightarrow> (\<exists>row'. add_source (e(ustr ''ID'' \<mapsto> v)) = Inr row'
           \<and> (row' (ustr ''Source'') = None) \<noteq> (row' (ustr ''Source_comment'') = None)))"
proof -
  have one: "\<exists>row'. add_source row = Inr row'
           \<and> (row' (ustr ''Source'') = None) \<noteq> (row' (ustr ''Source_comment'') = None)"
    if "\<exists>r. row (ustr ''reference'') = Some (Str r)" and "row (ustr ''Source'') = None"
      and "row (ustr ''Source_comment'') = None" for row
    using that by (auto simp: add_source_Str split: option.splits)
  show ?thesis
  proof (intro conjI impI)
    assume "row (ustr ''reference'') = Some (Str r) \<and> row (ustr ''Source'') = None
              \<and> row (ustr ''Source_comment'') = None"
    then show "\<exists>row'. add_source row = Inr row'
           \<and> (row' (ustr ''Source'') = None) \<noteq> (row' (ustr ''Source_comment'') = None)"
      by (intro one) auto
  next
    assume "language_row raw = Inr lang"
    from language_row_fresh[OF this]
    show "\<exists>row'. add_source lang = Inr row'
           \<and> (row' (ustr ''Source'') = None) \<noteq> (row' (ustr ''Source_comment'') = None)"
      by (intro one) auto
  next
    assume "make_example uc ex = Inr e"
    from make_example_fresh[OF this, of v]
    show "\<exists>row'. add_source (e(ustr ''ID'' \<mapsto> v)) = Inr row'
           \<and> (row' (ustr ''Source'') = None) \<noteq> (row' (ustr ''Source_comment'') = None)"
      by (intro one) auto
  qed
qed

theorem add_source_exactly_one_witness:
  "(\<exists>row'. add_source [ustr ''reference'' \<mapsto> Str (ustr ''p.c.'')] = Inr row'
           \<and> (row' (ustr ''Source'') = None) \<noteq> (row' (ustr ''Source_comment'') = None))
   \<and> (\<exists>row'. add_source
               [ustr ''ID'' \<mapsto> Str (ustr ''a''), ustr ''Glottocode'' \<mapsto> Str (ustr ''a''),
                ustr ''Family_ID'' \<mapsto> Str (ustr ''f''), ustr ''Parent_ID'' \<mapsto> Str (ustr ''p''),
                ustr ''Name'' \<mapsto> Str (ustr ''n''), ustr ''Latitude'' \<mapsto> Str (ustr ''1''),
                ustr ''Longitude'' \<mapsto> Str (ustr ''2''), ustr ''ISO639P3code'' \<mapsto> Str (ustr ''c''),
                ustr ''reference'' \<mapsto> Str (backslash # ustr ''citep{foo79bar}'')] = Inr row'
           \<and> (row' (ustr ''Source'') = None) \<noteq> (row' (ustr ''Source_comment'') = None))
   \<and> (\<exists>row'. add_source
               ([ustr ''Language_ID'' \<mapsto> Str (fix_example_lang_id (ustr ''a'')),
                 ustr ''Primary_Text'' \<mapsto> Str (detex (\<lambda>c. [c]) (ustr ''x'')),
                 ustr ''Analyzed_Word'' \<mapsto> Lst (map (detex (\<lambda>c. [c])) (split (ustr ''x''))),
                 ustr ''Gloss'' \<mapsto> Lst (map (detex (\<lambda>c. [c])) (split (ustr ''y''))),
                 ustr ''Translated_Text'' \<mapsto> Str (strip (ustr ''t'')),
                 ustr ''reference'' \<mapsto> Str (ustr ''p.c.'')]
                (ustr ''ID'' \<mapsto> Str (ustr ''a-1''))) = Inr row'
           \<and> (row' (ustr ''Source'') = None) \<noteq> (row' (ustr ''Source_comment'') = None))"
proof (intro conjI)
  have "make_example (\<lambda>c. [c])
          (raw_example [ustr ''a'', ustr ''x'', ustr ''y'', ustr ''t'', ustr ''p.c.''])
        = Inr [ustr ''Language_ID'' \<mapsto> Str (fix_example_lang_id (ustr ''a'')),
                 ustr ''Primary_Text'' \<mapsto> Str (detex (\<lambda>c. [c]) (ustr ''x'')),
                 ustr ''Analyzed_Word'' \<mapsto> Lst (map (detex (\<lambda>c. [c])) (split (ustr ''x''))),
                 ustr ''Gloss'' \<mapsto> Lst (map (detex (\<lambda>c. [c])) (split (ustr ''y''))),
                 ustr ''Translated_Text'' \<mapsto> Str (strip (ustr ''t'')),
                 ustr ''reference'' \<mapsto> Str (ustr ''p.c.'')]"
    by (simp add: make_example_def raw_example_def EXAMPLE_COLUMNS_def getitem_def ebind_def)
  then show "\<exists>row'. add_source
               ([ustr ''Language_ID'' \<mapsto> Str (fix_example_lang_id (ustr ''a'')),
                 ustr ''Primary_Text'' \<mapsto> Str (detex (\<lambda>c. [c]) (ustr ''x'')),
                 ustr ''Analyzed_Word'' \<mapsto> Lst (map (detex (\<lambda>c. [c])) (split (ustr ''x''))),
                 ustr ''Gloss'' \<mapsto> Lst (map (detex (\<lambda>c. [c])) (split (ustr ''y''))),
                 ustr ''Translated_Text'' \<mapsto> Str (strip (ustr ''t'')),
                 ustr ''reference'' \<mapsto> Str (ustr ''p.c.'')]
                (ustr ''ID'' \<mapsto> Str (ustr ''a-1''))) = Inr row'
           \<and> (row' (ustr ''Source'') = None) \<noteq> (row' (ustr ''Source_comment'') = None)"
    by (rule add_source_exactly_one[THEN conjunct2, THEN conjunct2, rule_format])
next
  show "\<exists>row'. add_source [ustr ''reference'' \<mapsto> Str (ustr ''p.c.'')] = Inr row'
           \<and> (row' (ustr ''Source'') = None) \<noteq> (row' (ustr ''Source_comment'') = None)"
    by (rule add_source_exactly_one[THEN conjunct1, rule_format, of _ "ustr ''p.c.''"]) simp
next
  have "language_row
          [ustr ''id'' \<mapsto> ustr ''a'', ustr ''family_id'' \<mapsto> ustr ''f'',
           ustr ''parent_id'' \<mapsto> ustr ''p'', ustr ''name'' \<mapsto> ustr ''n'',
           ustr ''latitude'' \<mapsto> ustr ''1'', ustr ''longitude'' \<mapsto> ustr ''2'',
           ustr ''iso639P3code'' \<mapsto> ustr ''c'',
           ustr ''reference'' \<mapsto> backslash # ustr ''citep{foo79bar}'']
        = Inr [ustr ''ID'' \<mapsto> Str (ustr ''a''), ustr ''Glottocode'' \<mapsto> Str (ustr ''a''),
                ustr ''Family_ID'' \<mapsto> Str (ustr ''f''), ustr ''Parent_ID'' \<mapsto> Str (ustr ''p''),
                ustr ''Name'' \<mapsto> Str (ustr ''n''), ustr ''Latitude'' \<mapsto> Str (ustr ''1''),
                ustr ''Longitude'' \<mapsto> Str (ustr ''2''), ustr ''ISO639P3code'' \<mapsto> Str (ustr ''c''),
                ustr ''reference'' \<mapsto> Str (backslash # ustr ''citep{foo79bar}'')]"
    by (simp add: lang_defs)
  then show "\<exists>row'. add_source
               [ustr ''ID'' \<mapsto> Str (ustr ''a''), ustr ''Glottocode'' \<mapsto> Str (ustr ''a''),
                ustr ''Family_ID'' \<mapsto> Str (ustr ''f''), ustr ''Parent_ID'' \<mapsto> Str (ustr ''p''),
                ustr ''Name'' \<mapsto> Str (ustr ''n''), ustr ''Latitude'' \<mapsto> Str (ustr ''1''),
                ustr ''Longitude'' \<mapsto> Str (ustr ''2''), ustr ''ISO639P3code'' \<mapsto> Str (ustr ''c''),
                ustr ''reference'' \<mapsto> Str (backslash # ustr ''citep{foo79bar}'')] = Inr row'
           \<and> (row' (ustr ''Source'') = None) \<noteq> (row' (ustr ''Source_comment'') = None)"
    by (rule add_source_exactly_one[THEN conjunct2, THEN conjunct1, rule_format])
qed

section \<open>The language table: direction of the column table\<close>

text \<open>
  A raw row with the nine capitalised columns and no \<open>id\<close> column is not turned into
  a record at all; and when the lower-case columns are there too, the record has no
  \<open>id\<close> key, and its \<open>ID\<close> and \<open>Glottocode\<close> both hold the \<open>id\<close> cell, not the
  \<open>Glottocode\<close> cell.
\<close>

theorem language_row_counterexample:
  "language_row
     [ustr ''ID'' \<mapsto> ustr ''1'', ustr ''Glottocode'' \<mapsto> ustr ''alam1246'',
      ustr ''Family_ID'' \<mapsto> ustr ''sepi1257'', ustr ''Parent_ID'' \<mapsto> ustr ''sepi1258'',
      ustr ''Name'' \<mapsto> ustr ''Alamblak'', ustr ''Latitude'' \<mapsto> ustr ''-4.7'',
      ustr ''Longitude'' \<mapsto> ustr ''143.3'', ustr ''ISO639P3code'' \<mapsto> ustr ''amp'',
      ustr ''reference'' \<mapsto> ustr ''p.c.'']
   = Inl (KeyError (ustr ''id''))
   \<and> (case language_row
             [ustr ''ID'' \<mapsto> ustr ''1'', ustr ''Glottocode'' \<mapsto> ustr ''alam1246'',
              ustr ''id'' \<mapsto> ustr ''x'', ustr ''family_id'' \<mapsto> ustr ''sepi1257'',
              ustr ''parent_id'' \<mapsto> ustr ''sepi1258'', ustr ''name'' \<mapsto> ustr ''Alamblak'',
              ustr ''latitude'' \<mapsto> ustr ''-4.7'', ustr ''longitude'' \<mapsto> ustr ''143.3'',
              ustr ''iso639P3code'' \<mapsto> ustr ''amp'', ustr ''reference'' \<mapsto> ustr ''p.c.'']
        of Inl e \<Rightarrow> False
         | Inr lang \<Rightarrow>
             lang (ustr ''id'') = None
             \<and> lang (ustr ''ID'') = Some (Str (ustr ''x''))
             \<and> lang (ustr ''Glottocode'') = Some (Str (ustr ''x'')))"
  by (simp add: lang_defs)

text \<open>
  Claim C1, as amended. Each pair of the nine-entry table is (key written, column
  read). For every raw row that has the columns \<open>id\<close>, \<open>family_id\<close>, \<open>parent_id\<close>,
  \<open>name\<close>, \<open>latitude\<close>, \<open>longitude\<close>, \<open>iso639P3code\<close> and \<open>reference\<close>, the record
  built has exactly the nine keys of the table, and \<open>ID\<close> and \<open>Glottocode\<close> both hold
  the \<open>id\<close> cell; no key is written twice. A raw row without the \<open>id\<close> column raises
  \<^verbatim>\<open>KeyError\<close>, whatever other columns it has.
\<close>

theorem language_row_columns:
  "(row (ustr ''id'') = Some lang_id \<and> row (ustr ''family_id'') = Some family
      \<and> row (ustr ''parent_id'') = Some parent \<and> row (ustr ''name'') = Some name
      \<and> row (ustr ''latitude'') = Some lat \<and> row (ustr ''longitude'') = Some lon
      \<and> row (ustr ''iso639P3code'') = Some iso_code \<and> row (ustr ''reference'') = Some r
    \<longrightarrow> language_row row =
          Inr [ustr ''ID'' \<mapsto> Str lang_id, ustr ''Glottocode'' \<mapsto> Str lang_id,
               ustr ''Family_ID'' \<mapsto> Str family, ustr ''Parent_ID'' \<mapsto> Str parent,
               ustr ''Name'' \<mapsto> Str name, ustr ''Latitude'' \<mapsto> Str lat,
               ustr ''Longitude'' \<mapsto> Str lon, ustr ''ISO639P3code'' \<mapsto> Str iso_code,
               ustr ''reference'' \<mapsto> Str r])
   \<and> (row (ustr ''id'') = None \<longrightarrow> language_row row = Inl (KeyError (ustr ''id'')))"
  by (simp add: lang_defs)

theorem language_row_columns_witness:
  "language_row
     [ustr ''id'' \<mapsto> ustr ''alam1246'', ustr ''family_id'' \<mapsto> ustr ''sepi1257'',
      ustr ''parent_id'' \<mapsto> ustr ''sepi1258'', ustr ''name'' \<mapsto> ustr ''Alamblak'',
      ustr ''latitude'' \<mapsto> ustr ''-4.7'', ustr ''longitude'' \<mapsto> ustr ''143.3'',
      ustr ''iso639P3code'' \<mapsto> ustr ''amp'', ustr ''reference'' \<mapsto> ustr ''p.c.'']
   = Inr [ustr ''ID'' \<mapsto> Str (ustr ''alam1246''), ustr ''Glottocode'' \<mapsto> Str (ustr ''alam1246''),
          ustr ''Family_ID'' \<mapsto> Str (ustr ''sepi1257''), ustr ''Parent_ID'' \<mapsto> Str (ustr ''sepi1258''),
          ustr ''Name'' \<mapsto> Str (ustr ''Alamblak''), ustr ''Latitude'' \<mapsto> Str (ustr ''-4.7''),
          ustr ''Longitude'' \<mapsto> Str (ustr ''143.3''), ustr ''ISO639P3code'' \<mapsto> Str (ustr ''amp''),
          ustr ''reference'' \<mapsto> Str (ustr ''p.c.'')]
   \<and> language_row [ustr ''Glottocode'' \<mapsto> ustr ''alam1246'', ustr ''ID'' \<mapsto> ustr ''1'']
       = Inl (KeyError (ustr ''id''))"
  using language_row_columns
          [of "[ustr ''id'' \<mapsto> ustr ''alam1246'', ustr ''family_id'' \<mapsto> ustr ''sepi1257'',
                ustr ''parent_id'' \<mapsto> ustr ''sepi1258'', ustr ''name'' \<mapsto> ustr ''Alamblak'',
                ustr ''latitude'' \<mapsto> ustr ''-4.7'', ustr ''longitude'' \<mapsto> ustr ''143.3'',
                ustr ''iso639P3code'' \<mapsto> ustr ''amp'', ustr ''reference'' \<mapsto> ustr ''p.c.'']"
              "ustr ''alam1246''" "ustr ''sepi1257''" "ustr ''sepi1258''" "ustr ''Alamblak''"
              "ustr ''-4.7''" "ustr ''143.3''" "ustr ''amp''" "ustr ''p.c.''"]
        language_row_columns
          [of "[ustr ''Glottocode'' \<mapsto> ustr ''alam1246'', ustr ''ID'' \<mapsto> ustr ''1'']"]
  by simp

section \<open>The value table: coded and free-text values\<close>

lemma ustr_Nil_iff [simp]: "ustr a = [] \<longleftrightarrow> a = []" "[] = ustr a \<longleftrightarrow> a = []"
  by (auto simp: ustr_def)

lemma emap_list_all2:
  "(\<And>x. x \<in> set xs \<Longrightarrow> \<exists>y. f x = Inr y \<and> P x y)
     \<Longrightarrow> \<exists>ys. emap f xs = Inr ys \<and> list_all2 P xs ys"
proof (induction xs)
  case Nil
  then show ?case by simp
next
  case (Cons x xs)
  then obtain y where y: "f x = Inr y" "P x y"
    by auto
  from Cons obtain ys where ys: "emap f xs = Inr ys" "list_all2 P xs ys"
    by auto
  from y ys show ?case
    by (simp add: ebind_def)
qed

lemma make_value_cases:
  assumes "row (ustr ''id'') = Some lang_id" and "row param_id = Some cell"
  shows "make_value row code_table code_id_map param_id =
           (case code_id_map (param_id, cell) of
              None \<Rightarrow>
                Inr [ustr ''ID'' \<mapsto> lang_id @ ustr ''-'' @ param_id,
                     ustr ''Language_ID'' \<mapsto> lang_id, ustr ''Parameter_ID'' \<mapsto> param_id,
                     ustr ''Value'' \<mapsto> cell]
            | Some code_id \<Rightarrow>
                (if code_id \<noteq> []
                 then ebind (getitem code_table code_id) (\<lambda>code.
                      ebind (getitem code (ustr ''Name'')) (\<lambda>name.
                        Inr [ustr ''ID'' \<mapsto> lang_id @ ustr ''-'' @ param_id,
                             ustr ''Language_ID'' \<mapsto> lang_id,
                             ustr ''Parameter_ID'' \<mapsto> param_id,
                             ustr ''Code_ID'' \<mapsto> code_id, ustr ''Value'' \<mapsto> name]))
                 else Inr [ustr ''ID'' \<mapsto> lang_id @ ustr ''-'' @ param_id,
                           ustr ''Language_ID'' \<mapsto> lang_id,
                           ustr ''Parameter_ID'' \<mapsto> param_id, ustr ''Value'' \<mapsto> cell]))"
  using assms by (simp add: make_value_def getitem_def ebind_def split: option.splits)

text \<open>
  A code whose \<open>ID\<close> is the empty string is found by the lookup, but \<^verbatim>\<open>if code_id\<close>
  treats it as missing: the record keeps the raw cell and gets no \<open>Code_ID\<close>.
\<close>

theorem make_value_empty_code_id:
  "make_value [ustr ''id'' \<mapsto> ustr ''alam1246'', ustr ''P1'' \<mapsto> ustr ''x'']
     [ustr '''' \<mapsto> [ustr ''ID'' \<mapsto> ustr '''', ustr ''Parameter_ID'' \<mapsto> ustr ''P1'',
                      ustr ''Spreadsheet_Value'' \<mapsto> ustr ''x'', ustr ''Name'' \<mapsto> ustr ''yes'']]
     [(ustr ''P1'', ustr ''x'') \<mapsto> ustr ''''] (ustr ''P1'')
   = Inr [ustr ''ID'' \<mapsto> ustr ''alam1246-P1'',
          ustr ''Language_ID'' \<mapsto> ustr ''alam1246'', ustr ''Parameter_ID'' \<mapsto> ustr ''P1'',
          ustr ''Value'' \<mapsto> ustr ''x'']"
  by (simp add: make_value_def getitem_def ebind_def) (simp add: ustr_def)

text \<open>
  Claim C4, as amended. For a raw row that has the \<open>id\<close> column and the column of the
  parameter: when the pair (parameter id, cell) is mapped to a non-empty code id whose
  code is in the code table and has a \<open>Name\<close>, the record's \<open>Value\<close> is that name and
  its \<open>Code_ID\<close> is the code id; when the pair is not mapped, the \<open>Value\<close> is the cell
  itself and there is no \<open>Code_ID\<close>. In both cases \<open>make_value\<close> returns normally.
\<close>

theorem make_value_coded_or_raw:
  "row (ustr ''id'') = Some lang_id \<and> row param_id = Some cell \<longrightarrow>
     (code_id_map (param_id, cell) = Some code_id \<and> code_id \<noteq> []
        \<and> code_table code_id = Some code \<and> code (ustr ''Name'') = Some name
      \<longrightarrow> make_value row code_table code_id_map param_id =
            Inr [ustr ''ID'' \<mapsto> lang_id @ ustr ''-'' @ param_id,
                 ustr ''Language_ID'' \<mapsto> lang_id, ustr ''Parameter_ID'' \<mapsto> param_id,
                 ustr ''Code_ID'' \<mapsto> code_id, ustr ''Value'' \<mapsto> name])
     \<and> (code_id_map (param_id, cell) = None
      \<longrightarrow> make_value row code_table code_id_map param_id =
            Inr [ustr ''ID'' \<mapsto> lang_id @ ustr ''-'' @ param_id,
                 ustr ''Language_ID'' \<mapsto> lang_id, ustr ''Parameter_ID'' \<mapsto> param_id,
                 ustr ''Value'' \<mapsto> cell])"
  by (simp add: make_value_cases getitem_def ebind_def)

theorem make_value_coded_or_raw_witness:
  "make_value [ustr ''id'' \<mapsto> ustr ''alam1246'', ustr ''P1'' \<mapsto> ustr ''x'']
     [ustr ''P1-yes'' \<mapsto> [ustr ''Name'' \<mapsto> ustr ''yes'']]
     [(ustr ''P1'', ustr ''x'') \<mapsto> ustr ''P1-yes''] (ustr ''P1'')
   = Inr [ustr ''ID'' \<mapsto> ustr ''alam1246'' @ ustr ''-'' @ ustr ''P1'',
          ustr ''Language_ID'' \<mapsto> ustr ''alam1246'', ustr ''Parameter_ID'' \<mapsto> ustr ''P1'',
          ustr ''Code_ID'' \<mapsto> ustr ''P1-yes'', ustr ''Value'' \<mapsto> ustr ''yes'']
   \<and> make_value [ustr ''id'' \<mapsto> ustr ''alam1246'', ustr ''P1'' \<mapsto> ustr ''x'']
     Map.empty Map.empty (ustr ''P1'')
   = Inr [ustr ''ID'' \<mapsto> ustr ''alam1246'' @ ustr ''-'' @ ustr ''P1'',
          ustr ''Language_ID'' \<mapsto> ustr ''alam1246'', ustr ''Parameter_ID'' \<mapsto> ustr ''P1'',
          ustr ''Value'' \<mapsto> ustr ''x'']"
  using make_value_coded_or_raw
          [of "[ustr ''id'' \<mapsto> ustr ''alam1246'', ustr ''P1'' \<mapsto> ustr ''x'']"
              "ustr ''alam1246''" "ustr ''P1''" "ustr ''x''"
              "[(ustr ''P1'', ustr ''x'') \<mapsto> ustr ''P1-yes'']" "ustr ''P1-yes''"
              "[ustr ''P1-yes'' \<mapsto> [ustr ''Name'' \<mapsto> ustr ''yes'']]"
              "[ustr ''Name'' \<mapsto> ustr ''yes'']" "ustr ''yes''"]
        make_value_coded_or_raw
          [of "[ustr ''id'' \<mapsto> ustr ''alam1246'', ustr ''P1'' \<mapsto> ustr ''x'']"
              "ustr ''alam1246''" "ustr ''P1''" "ustr ''x''" Map.empty _ Map.empty]
  by simp

section \<open>The value table: the cross product\<close>

lemma make_value_Inr:
  assumes "row (ustr ''id'') = Some lang_id" and "row param_id \<noteq> None"
    and "\<And>cell code_id. code_id_map (param_id, cell) = Some code_id \<Longrightarrow> code_id \<noteq> []
           \<Longrightarrow> \<exists>code. code_table code_id = Some code \<and> code (ustr ''Name'') \<noteq> None"
  shows "\<exists>v. make_value row code_table code_id_map param_id = Inr v
           \<and> v (ustr ''Language_ID'') = Some lang_id
           \<and> v (ustr ''Parameter_ID'') = Some param_id
           \<and> v (ustr ''ID'') = Some (lang_id @ ustr ''-'' @ param_id)"
proof -
  from assms(2) obtain cell where cell: "row param_id = Some cell"
    by auto
  show ?thesis
  proof (cases "code_id_map (param_id, cell)")
    case None
    then show ?thesis
      by (simp add: make_value_cases[OF assms(1) cell])
  next
    case (Some code_id)
    show ?thesis
    proof (cases "code_id = []")
      case True
      with Some show ?thesis
        by (simp add: make_value_cases[OF assms(1) cell])
    next
      case False
      with assms(3)[OF Some] obtain code name
        where "code_table code_id = Some code" and "code (ustr ''Name'') = Some name"
        by auto
      with Some False show ?thesis
        by (simp add: make_value_cases[OF assms(1) cell] getitem_def ebind_def)
    qed
  qed
qed

lemma concat_list_all2:
  "list_all2 (\<lambda>x ys. list_all2 (P x) zs ys) xs yss
     \<Longrightarrow> list_all2 (\<lambda>(x, z) y. P x z y) (concat (map (\<lambda>x. map (Pair x) zs) xs)) (concat yss)"
proof (induction xs yss rule: list_all2_induct)
  case Nil
  then show ?case by simp
next
  case (Cons x xs ys yss)
  have "list_all2 (\<lambda>(x, z) y. P x z y) (map (Pair x) zs) ys"
    using Cons.hyps(1) by (simp add: list_all2_map1)
  with Cons.IH show ?case
    by (simp add: list_all2_appendI)
qed

lemma value_table_spec:
  assumes "\<forall>row \<in> set raw_data. row (ustr ''id'') \<noteq> None \<and> (\<forall>p \<in> set param_ids. row p \<noteq> None)"
    and "\<forall>p cell code_id. code_id_map (p, cell) = Some code_id \<and> code_id \<noteq> []
           \<longrightarrow> (\<exists>code. code_table code_id = Some code \<and> code (ustr ''Name'') \<noteq> None)"
  shows "\<exists>vals. value_table raw_data code_table code_id_map param_ids = Inr vals
           \<and> length vals = length raw_data * length param_ids
           \<and> map (\<lambda>v. (v (ustr ''Language_ID''), v (ustr ''Parameter_ID''), v (ustr ''ID''))) vals
               = concat (map (\<lambda>row. map (\<lambda>p. (row (ustr ''id''), Some p,
                                                 Some (the (row (ustr ''id'')) @ ustr ''-'' @ p)))
                                        param_ids) raw_data)"
proof -
  let ?P = "\<lambda>row p v. v (ustr ''Language_ID'') = row (ustr ''id'')
                     \<and> v (ustr ''Parameter_ID'') = Some p
                     \<and> v (ustr ''ID'') = Some (the (row (ustr ''id'')) @ ustr ''-'' @ p)"
  have inner: "\<exists>vs. emap (make_value row code_table code_id_map) param_ids = Inr vs
                  \<and> list_all2 (?P row) param_ids vs"
    if "row \<in> set raw_data" for row
  proof (rule emap_list_all2)
    fix p assume p: "p \<in> set param_ids"
    from that assms(1) obtain lang_id where l: "row (ustr ''id'') = Some lang_id"
      by auto
    from that p assms(1) have c: "row p \<noteq> None"
      by auto
    from make_value_Inr[OF l c, of code_id_map code_table] assms(2) l
    show "\<exists>v. make_value row code_table code_id_map p = Inr v \<and> ?P row p v"
      by auto
  qed
  then obtain rows
    where rows: "emap (\<lambda>row. emap (make_value row code_table code_id_map) param_ids) raw_data
                   = Inr rows"
      and all2: "list_all2 (\<lambda>row vs. list_all2 (?P row) param_ids vs) raw_data rows"
    using emap_list_all2[of raw_data
            "\<lambda>row. emap (make_value row code_table code_id_map) param_ids"
            "\<lambda>row vs. list_all2 (?P row) param_ids vs"]
    by blast
  have tbl: "value_table raw_data code_table code_id_map param_ids = Inr (concat rows)"
    by (simp add: value_table_def rows ebind_def)
  from concat_list_all2[OF all2]
  have flat: "list_all2 (\<lambda>(row, p) v. ?P row p v)
                (concat (map (\<lambda>row. map (Pair row) param_ids) raw_data)) (concat rows)" .
  have len: "length (concat rows) = length raw_data * length param_ids"
  proof -
    have "length (concat rows) = length (concat (map (\<lambda>row. map (Pair row) param_ids) raw_data))"
      using flat by (simp add: list_all2_lengthD)
    also have "\<dots> = length raw_data * length param_ids"
      by (induction raw_data) simp_all
    finally show ?thesis .
  qed
  have "map (\<lambda>v. (v (ustr ''Language_ID''), v (ustr ''Parameter_ID''), v (ustr ''ID''))) (concat rows)
          = map (\<lambda>(row, p). (row (ustr ''id''), Some p,
                              Some (the (row (ustr ''id'')) @ ustr ''-'' @ p)))
              (concat (map (\<lambda>row. map (Pair row) param_ids) raw_data))"
    using flat by (induction rule: list_all2_induct) auto
  also have "\<dots> = concat (map (\<lambda>row. map (\<lambda>p. (row (ustr ''id''), Some p,
                                                 Some (the (row (ustr ''id'')) @ ustr ''-'' @ p)))
                                        param_ids) raw_data)"
    by (simp add: map_concat comp_def)
  finally show ?thesis
    using tbl len by blast
qed

section \<open>Rendering a misaligned example\<close>

lemma pad_tokens_eq:
  "length widths \<le> length tokens \<Longrightarrow>
   pad_tokens tokens widths
     = Inr (map (\<lambda>(t, w). ljust t w) (zip tokens widths) @ map (\<lambda>t. ljust t 0) (drop (length widths) tokens))"
proof (induction tokens arbitrary: widths)
  case Nil
  then show ?case by (simp add: pad_tokens_def)
next
  case (Cons t tokens)
  show ?case
  proof (cases widths)
    case Nil
    have "pad_tokens tokens [] = Inr (map (\<lambda>t. ljust t 0) tokens)"
      using Cons.IH[of "[]"] by simp
    then show ?thesis
      using Nil by (simp add: pad_tokens_def ebind_def)
  next
    case (Cons w ws)
    with Cons.prems have "length ws \<le> length tokens"
      by simp
    from Cons.IH[OF this] Cons show ?thesis
      by (simp add: pad_tokens_def ebind_def)
  qed
qed

lemma ljust_0 [simp]: "ljust t 0 = t"
  by (simp add: ljust_def)

lemma zip_widths_left:
  "map (\<lambda>(t, w). ljust t w) (zip ws (map (\<lambda>(w, g). max (length w) (length g)) (zip ws gs)))
     = map (\<lambda>(w, g). ljust w (max (length w) (length g))) (zip ws gs)"
  by (induction ws gs rule: list_induct2') simp_all

lemma zip_widths_right:
  "map (\<lambda>(t, w). ljust t w) (zip gs (map (\<lambda>(w, g). max (length w) (length g)) (zip ws gs)))
     = map (\<lambda>(w, g). ljust g (max (length w) (length g))) (zip ws gs)"
  by (induction ws gs rule: list_induct2') simp_all

lemma replicate_four: "replicate n x @ [x, x, x, x] = replicate (n + 4) x"
  by (induction n) (simp_all add: numeral_eq_Suc)

lemma replicate_spaces: "replicate n space @ ustr ''    '' = replicate (n + 4) space"
proof -
  have "ustr ''    '' = [space, space, space, space]"
    by (simp add: ustr_def space_def)
  then show ?thesis
    by (simp only: replicate_four)
qed

lemma render_example_eq:
  assumes "example (ustr ''Analyzed_Word'') = Some (Lst words)"
    and "example (ustr ''Gloss'') = Some (Lst glosses)"
    and "example (ustr ''ID'') = Some (Str i)"
  shows "render_example example =
           Inr (ustr ''('' @ i @ ustr '')  ''
                @ rstrip (join (ustr ''  '')
                    (map (\<lambda>(w, g). ljust w (max (length w) (length g))) (zip words glosses)
                     @ drop (length glosses) words))
                @ [newline] @ replicate (length i + 4) space
                @ rstrip (join (ustr ''  '')
                    (map (\<lambda>(w, g). ljust g (max (length w) (length g))) (zip words glosses)
                     @ drop (length words) glosses)))"
proof -
  let ?widths = "map (\<lambda>(w, g). max (length w) (length g)) (zip words glosses)"
  have w: "pad_tokens words ?widths
             = Inr (map (\<lambda>(w, g). ljust w (max (length w) (length g))) (zip words glosses)
                    @ drop (length glosses) words)"
    by (simp add: pad_tokens_eq zip_widths_left min_def)
  have g: "pad_tokens glosses ?widths
             = Inr (map (\<lambda>(w, g). ljust g (max (length w) (length g))) (zip words glosses)
                    @ drop (length words) glosses)"
    by (simp add: pad_tokens_eq zip_widths_right min_def)
  show ?thesis
    using assms
    by (simp add: render_example_def getitem_def ebind_def w g replicate_spaces[symmetric]
             del: append_assoc)
qed

text \<open>
  Claim C10. \<open>render_example\<close> returns normally on every example whose \<open>ID\<close> is a
  string and whose \<open>Analyzed_Word\<close> and \<open>Gloss\<close> are token lists, whatever their
  lengths. The widths are taken over the pairs of \<^verbatim>\<open>zip(words, glosses)\<close> only; the
  tokens past the shorter list are emitted as they are (width 0); both lines are
  right-stripped; the gloss line starts with as many spaces as the label
  \<^verbatim>\<open>(ID)\<close> and the two spaces after it are wide.
\<close>

theorem render_example_layout:
  assumes "example (ustr ''Analyzed_Word'') = Some (Lst words)"
    and "example (ustr ''Gloss'') = Some (Lst glosses)"
    and "example (ustr ''ID'') = Some (Str i)"
  shows "render_example example =
           Inr (ustr ''('' @ i @ ustr '')  ''
                @ rstrip (join (ustr ''  '')
                    (map (\<lambda>(w, g). ljust w (max (length w) (length g))) (zip words glosses)
                     @ drop (length glosses) words))
                @ [newline] @ replicate (length i + 4) space
                @ rstrip (join (ustr ''  '')
                    (map (\<lambda>(w, g). ljust g (max (length w) (length g))) (zip words glosses)
                     @ drop (length words) glosses)))"
  using assms by (rule render_example_eq)

theorem render_example_layout_witness:
  "render_example
     [ustr ''ID'' \<mapsto> Str (ustr ''a-1''),
      ustr ''Analyzed_Word'' \<mapsto> Lst [ustr ''ab'', ustr ''c'', ustr ''defg''],
      ustr ''Gloss'' \<mapsto> Lst [ustr ''x'', ustr ''yz'']]
   = Inr (ustr ''(a-1)  ab  c   defg'' @ [newline] @ ustr ''       x   yz'')"
proof -
  have "render_example
     [ustr ''ID'' \<mapsto> Str (ustr ''a-1''),
      ustr ''Analyzed_Word'' \<mapsto> Lst [ustr ''ab'', ustr ''c'', ustr ''defg''],
      ustr ''Gloss'' \<mapsto> Lst [ustr ''x'', ustr ''yz'']]
    = Inr (ustr ''('' @ ustr ''a-1'' @ ustr '')  ''
                @ rstrip (join (ustr ''  '')
                    (map (\<lambda>(w, g). ljust w (max (length w) (length g)))
                       (zip [ustr ''ab'', ustr ''c'', ustr ''defg''] [ustr ''x'', ustr ''yz''])
                     @ drop (length [ustr ''x'', ustr ''yz'']) [ustr ''ab'', ustr ''c'', ustr ''defg'']))
                @ [newline] @ replicate (length (ustr ''a-1'') + 4) space
                @ rstrip (join (ustr ''  '')
                    (map (\<lambda>(w, g). ljust g (max (length w) (length g)))
                       (zip [ustr ''ab'', ustr ''c'', ustr ''defg''] [ustr ''x'', ustr ''yz''])
                     @ drop (length [ustr ''ab'', ustr ''c'', ustr ''defg'']) [ustr ''x'', ustr ''yz''])))"
    by (rule render_example_layout) simp_all
  also have "\<dots> = Inr (ustr ''(a-1)  ab  c   defg'' @ [newline] @ ustr ''       x   yz'')"
    by (simp add: ustr_def ljust_def rstrip_def isspace_def space_def newline_def numeral_eq_Suc)
  finally show ?thesis .
qed

section \<open>Building, numbering and checking the examples\<close>

lemma add_source_keeps:
  assumes "row (ustr ''reference'') = Some (Str r)"
  shows "\<exists>row'. add_source row = Inr row'
           \<and> (\<forall>k. k \<noteq> ustr ''Source'' \<longrightarrow> k \<noteq> ustr ''Source_comment'' \<longrightarrow> row' k = row k)"
  using assms by (auto simp: add_source_Str split: option.splits)

lemma make_example_eq:
  assumes "5 \<le> length r"
  shows "make_example uc (raw_example r) =
           Inr [ustr ''Language_ID'' \<mapsto> Str (fix_example_lang_id (r ! 0)),
                ustr ''Primary_Text'' \<mapsto> Str (detex uc (r ! 1)),
                ustr ''Analyzed_Word'' \<mapsto> Lst (map (detex uc) (split (r ! 1))),
                ustr ''Gloss'' \<mapsto> Lst (map (detex uc) (split (r ! 2))),
                ustr ''Translated_Text'' \<mapsto> Str (strip (r ! 3)),
                ustr ''reference'' \<mapsto> Str (r ! 4)]"
proof -
  from assms obtain a b c d e rest where r: "r = a # b # c # d # e # rest"
    by (cases r; simp; rename_tac r1; case_tac r1; simp; rename_tac r2; case_tac r2; simp;
        rename_tac r3; case_tac r3; simp; rename_tac r4; case_tac r4; simp)
  show ?thesis
    by (simp add: r make_example_def raw_example_def EXAMPLE_COLUMNS_def getitem_def ebind_def)
qed

lemma number_examples_spec:
  assumes "\<forall>e \<in> set es. \<exists>l r. e (ustr ''Language_ID'') = Some (Str l)
                              \<and> e (ustr ''reference'') = Some (Str r)"
  shows "\<exists>out. number_examples cnt es = Inr out \<and> length out = length es
           \<and> (\<forall>k < length es. \<forall>l. (es ! k) (ustr ''Language_ID'') = Some (Str l) \<longrightarrow>
                 (out ! k) (ustr ''ID'')
                   = Some (Str (l @ ustr ''-''
                        @ str_nat ((case cnt l of None \<Rightarrow> 0 | Some c \<Rightarrow> c)
                            + length (filter (\<lambda>e. e (ustr ''Language_ID'') = Some (Str l))
                                        (take (Suc k) es)))))
                 \<and> (\<forall>key. key \<noteq> ustr ''ID'' \<longrightarrow> key \<noteq> ustr ''Source''
                        \<longrightarrow> key \<noteq> ustr ''Source_comment'' \<longrightarrow> (out ! k) key = (es ! k) key))"
  using assms
proof (induction es arbitrary: cnt)
  case Nil
  then show ?case by simp
next
  case (Cons e es)
  from Cons.prems obtain l0 r0
    where l0: "e (ustr ''Language_ID'') = Some (Str l0)"
      and r0: "e (ustr ''reference'') = Some (Str r0)"
    by auto
  define n where "n = (case cnt l0 of None \<Rightarrow> 0 | Some c \<Rightarrow> c) + 1"
  define e1 where "e1 = e(ustr ''ID'' \<mapsto> Str (l0 @ ustr ''-'' @ str_nat n))"
  have "e1 (ustr ''reference'') = Some (Str r0)"
    by (simp add: e1_def r0)
  from add_source_keeps[of e1 r0, OF this] obtain e2
    where e2: "add_source e1 = Inr e2"
      and keep: "\<And>k. k \<noteq> ustr ''Source'' \<Longrightarrow> k \<noteq> ustr ''Source_comment'' \<Longrightarrow> e2 k = e1 k"
    by blast
  from Cons.prems have "\<forall>e \<in> set es. \<exists>l r. e (ustr ''Language_ID'') = Some (Str l)
                              \<and> e (ustr ''reference'') = Some (Str r)"
    by simp
  from Cons.IH[OF this, of "cnt(l0 \<mapsto> n)"] obtain out
    where out: "number_examples (cnt(l0 \<mapsto> n)) es = Inr out" "length out = length es"
      and ih: "\<And>k l. k < length es \<Longrightarrow> (es ! k) (ustr ''Language_ID'') = Some (Str l) \<Longrightarrow>
                 (out ! k) (ustr ''ID'')
                   = Some (Str (l @ ustr ''-''
                        @ str_nat ((case (cnt(l0 \<mapsto> n)) l of None \<Rightarrow> 0 | Some c \<Rightarrow> c)
                            + length (filter (\<lambda>e. e (ustr ''Language_ID'') = Some (Str l))
                                        (take (Suc k) es)))))
                 \<and> (\<forall>key. key \<noteq> ustr ''ID'' \<longrightarrow> key \<noteq> ustr ''Source''
                        \<longrightarrow> key \<noteq> ustr ''Source_comment'' \<longrightarrow> (out ! k) key = (es ! k) key)"
    by blast
  have res: "number_examples cnt (e # es) = Inr (e2 # out)"
    using l0 e2 out(1) by (simp add: getitem_def ebind_def n_def e1_def Let_def)
  have "(\<forall>l. ((e # es) ! k) (ustr ''Language_ID'') = Some (Str l) \<longrightarrow>
                 ((e2 # out) ! k) (ustr ''ID'')
                   = Some (Str (l @ ustr ''-''
                        @ str_nat ((case cnt l of None \<Rightarrow> 0 | Some c \<Rightarrow> c)
                            + length (filter (\<lambda>e. e (ustr ''Language_ID'') = Some (Str l))
                                        (take (Suc k) (e # es))))))
                 \<and> (\<forall>key. key \<noteq> ustr ''ID'' \<longrightarrow> key \<noteq> ustr ''Source''
                        \<longrightarrow> key \<noteq> ustr ''Source_comment''
                        \<longrightarrow> ((e2 # out) ! k) key = ((e # es) ! k) key))"
    if k: "k < length (e # es)" for k
  proof (cases k)
    case 0
    then show ?thesis
      using l0 keep by (auto simp: e1_def n_def)
  next
    case (Suc j)
    with k have j: "j < length es"
      by simp
    show ?thesis
      using ih[OF j] Suc l0 by (auto simp: n_def)
  qed
  with res out(2) show ?case
    by auto
qed

lemma emap_eq_map: "(\<And>x. x \<in> set xs \<Longrightarrow> f x = Inr (g x)) \<Longrightarrow> emap f xs = Inr (map g xs)"
  by (induction xs) (simp_all add: ebind_def)

lemma efilter_eq_filter:
  "(\<And>x. x \<in> set xs \<Longrightarrow> p x = Inr (q x)) \<Longrightarrow> efilter p xs = Inr (filter q xs)"
  by (induction xs) (simp_all add: ebind_def)

lemma render_example_label:
  assumes "example (ustr ''Analyzed_Word'') = Some (Lst words)"
    and "example (ustr ''Gloss'') = Some (Lst glosses)"
    and "example (ustr ''ID'') = Some (Str i)"
  shows "\<exists>t. render_example example = Inr t \<and> prefix (ustr ''('' @ i @ ustr '')'') t"
proof -
  have "ustr '')  '' @ rest = ustr '')'' @ ustr ''  '' @ rest" for rest
    by (simp add: ustr_def)
  then show ?thesis
    by (simp add: render_example_eq[OF assms])
qed

lemma warn_about_glosses_spec:
  assumes "\<forall>e \<in> set tbl. \<exists>ws gs i. e (ustr ''Analyzed_Word'') = Some (Lst ws)
              \<and> e (ustr ''Gloss'') = Some (Lst gs) \<and> e (ustr ''ID'') = Some (Str i)"
  shows "\<exists>texts.
           list_all2 (\<lambda>e t. render_example e = Inr t
                        \<and> (\<exists>i. e (ustr ''ID'') = Some (Str i) \<and> prefix (ustr ''('' @ i @ ustr '')'') t))
             (filter (\<lambda>e. len_val (the (e (ustr ''Analyzed_Word'')))
                            \<noteq> len_val (the (e (ustr ''Gloss'')))) tbl) texts
           \<and> warn_about_glosses tbl =
               Inr (if texts = [] then []
                    else ustr ''ERROR: Misaligned glosses in examples:''
                         # concat (map (\<lambda>t. [[], t]) texts))"
proof -
  let ?bad = "filter (\<lambda>e. len_val (the (e (ustr ''Analyzed_Word'')))
                            \<noteq> len_val (the (e (ustr ''Gloss'')))) tbl"
  have filt: "efilter misaligned tbl = Inr ?bad"
  proof (rule efilter_eq_filter)
    fix e assume "e \<in> set tbl"
    with assms show "misaligned e = Inr (len_val (the (e (ustr ''Analyzed_Word'')))
                            \<noteq> len_val (the (e (ustr ''Gloss''))))"
      by (auto simp: misaligned_def getitem_def ebind_def)
  qed
  have "\<exists>texts. emap render_example ?bad = Inr texts
          \<and> list_all2 (\<lambda>e t. render_example e = Inr t
                        \<and> (\<exists>i. e (ustr ''ID'') = Some (Str i) \<and> prefix (ustr ''('' @ i @ ustr '')'') t))
               ?bad texts"
  proof (rule emap_list_all2)
    fix e assume "e \<in> set ?bad"
    then have "e \<in> set tbl"
      by simp
    with assms obtain ws gs i where "e (ustr ''Analyzed_Word'') = Some (Lst ws)"
      "e (ustr ''Gloss'') = Some (Lst gs)" "e (ustr ''ID'') = Some (Str i)"
      by blast
    from render_example_label[OF this] this(3)
    show "\<exists>t. render_example e = Inr t \<and> render_example e = Inr t
              \<and> (\<exists>i. e (ustr ''ID'') = Some (Str i) \<and> prefix (ustr ''('' @ i @ ustr '')'') t)"
      by auto
  qed
  then obtain texts where texts: "emap render_example ?bad = Inr texts"
    and all2: "list_all2 (\<lambda>e t. render_example e = Inr t
                        \<and> (\<exists>i. e (ustr ''ID'') = Some (Str i) \<and> prefix (ustr ''('' @ i @ ustr '')'') t))
               ?bad texts"
    by blast
  from all2 have "?bad = [] \<longleftrightarrow> texts = []"
    by (auto dest: list_all2_lengthD)
  with filt texts have "warn_about_glosses tbl =
               Inr (if texts = [] then []
                    else ustr ''ERROR: Misaligned glosses in examples:''
                         # concat (map (\<lambda>t. [[], t]) texts))"
    by (auto simp: warn_about_glosses_def ebind_def)
  with all2 show ?thesis
    by blast
qed

lemma example_table_spec:
  assumes "\<forall>r \<in> set example_rows. 5 \<le> length r"
  shows "\<exists>examples texts.
           example_table uc example_rows =
             Inr (examples,
                  if texts = [] then []
                  else ustr ''ERROR: Misaligned glosses in examples:''
                       # concat (map (\<lambda>t. [[], t]) texts))
           \<and> length examples = length example_rows
           \<and> (\<forall>k < length example_rows.
                 (examples ! k) (ustr ''Language_ID'')
                   = Some (Str (fix_example_lang_id (example_rows ! k ! 0)))
                 \<and> (examples ! k) (ustr ''Analyzed_Word'')
                   = Some (Lst (map (detex uc) (split (example_rows ! k ! 1))))
                 \<and> (examples ! k) (ustr ''Gloss'')
                   = Some (Lst (map (detex uc) (split (example_rows ! k ! 2))))
                 \<and> (examples ! k) (ustr ''ID'')
                   = Some (Str (fix_example_lang_id (example_rows ! k ! 0) @ ustr ''-''
                        @ str_nat (length
                            (filter (\<lambda>r. fix_example_lang_id (r ! 0)
                                            = fix_example_lang_id (example_rows ! k ! 0))
                               (take (Suc k) example_rows))))))
           \<and> list_all2 (\<lambda>e t. render_example e = Inr t
                        \<and> (\<exists>i. e (ustr ''ID'') = Some (Str i) \<and> prefix (ustr ''('' @ i @ ustr '')'') t))
               (filter (\<lambda>e. len_val (the (e (ustr ''Analyzed_Word'')))
                              \<noteq> len_val (the (e (ustr ''Gloss'')))) examples) texts"
proof -
  let ?f = "\<lambda>r. [ustr ''Language_ID'' \<mapsto> Str (fix_example_lang_id (r ! 0)),
                ustr ''Primary_Text'' \<mapsto> Str (detex uc (r ! 1)),
                ustr ''Analyzed_Word'' \<mapsto> Lst (map (detex uc) (split (r ! 1))),
                ustr ''Gloss'' \<mapsto> Lst (map (detex uc) (split (r ! 2))),
                ustr ''Translated_Text'' \<mapsto> Str (strip (r ! 3)),
                ustr ''reference'' \<mapsto> Str (r ! 4)]"
  let ?es = "map ?f example_rows"
  have "emap (\<lambda>r. make_example uc (raw_example r)) example_rows = Inr ?es"
    using assms by (intro emap_eq_map make_example_eq) simp
  moreover have "emap (make_example uc) (map raw_example xs)
                   = emap (\<lambda>r. make_example uc (raw_example r)) xs" for xs
    by (induction xs) simp_all
  ultimately have made: "emap (make_example uc) (map raw_example example_rows) = Inr ?es"
    by simp
  have "\<forall>e \<in> set ?es. \<exists>l r. e (ustr ''Language_ID'') = Some (Str l)
                              \<and> e (ustr ''reference'') = Some (Str r)"
    by auto
  from number_examples_spec[OF this, of Map.empty] obtain out
    where out: "number_examples Map.empty ?es = Inr out" "length out = length ?es"
      and num: "\<And>k l. k < length ?es \<Longrightarrow> (?es ! k) (ustr ''Language_ID'') = Some (Str l) \<Longrightarrow>
                 (out ! k) (ustr ''ID'')
                   = Some (Str (l @ ustr ''-''
                        @ str_nat (0 + length (filter (\<lambda>e. e (ustr ''Language_ID'') = Some (Str l))
                                        (take (Suc k) ?es)))))
                 \<and> (\<forall>key. key \<noteq> ustr ''ID'' \<longrightarrow> key \<noteq> ustr ''Source''
                        \<longrightarrow> key \<noteq> ustr ''Source_comment'' \<longrightarrow> (out ! k) key = (?es ! k) key)"
    by auto
  have len: "length out = length example_rows"
    using out(2) by simp
  have cnt: "length (filter (\<lambda>e. e (ustr ''Language_ID'') = Some (Str l)) (take (Suc k) ?es))
               = length (filter (\<lambda>r. fix_example_lang_id (r ! 0) = l) (take (Suc k) example_rows))"
    for l k
    by (simp add: take_map filter_map comp_def)
  have fields: "(out ! k) (ustr ''Language_ID'')
                   = Some (Str (fix_example_lang_id (example_rows ! k ! 0)))
                 \<and> (out ! k) (ustr ''Analyzed_Word'')
                   = Some (Lst (map (detex uc) (split (example_rows ! k ! 1))))
                 \<and> (out ! k) (ustr ''Gloss'')
                   = Some (Lst (map (detex uc) (split (example_rows ! k ! 2))))
                 \<and> (out ! k) (ustr ''ID'')
                   = Some (Str (fix_example_lang_id (example_rows ! k ! 0) @ ustr ''-''
                        @ str_nat (length
                            (filter (\<lambda>r. fix_example_lang_id (r ! 0)
                                            = fix_example_lang_id (example_rows ! k ! 0))
                               (take (Suc k) example_rows)))))"
    if k: "k < length example_rows" for k
  proof -
    from k have l: "(?es ! k) (ustr ''Language_ID'')
                      = Some (Str (fix_example_lang_id (example_rows ! k ! 0)))"
      by simp
    from k have k': "k < length ?es"
      by simp
    note n = num[OF k' l]
    from n have "(out ! k) (ustr ''Language_ID'') = (?es ! k) (ustr ''Language_ID'')"
      and "(out ! k) (ustr ''Analyzed_Word'') = (?es ! k) (ustr ''Analyzed_Word'')"
      and "(out ! k) (ustr ''Gloss'') = (?es ! k) (ustr ''Gloss'')"
      by simp_all
    moreover from n have "(out ! k) (ustr ''ID'')
                   = Some (Str (fix_example_lang_id (example_rows ! k ! 0) @ ustr ''-''
                        @ str_nat (length
                            (filter (\<lambda>r. fix_example_lang_id (r ! 0)
                                            = fix_example_lang_id (example_rows ! k ! 0))
                               (take (Suc k) example_rows)))))"
      by (simp only: cnt add_0)
    ultimately show ?thesis
      using k by simp
  qed
  have "\<forall>e \<in> set out. \<exists>ws gs i. e (ustr ''Analyzed_Word'') = Some (Lst ws)
              \<and> e (ustr ''Gloss'') = Some (Lst gs) \<and> e (ustr ''ID'') = Some (Str i)"
  proof
    fix e assume "e \<in> set out"
    then obtain k where "k < length out" and "e = out ! k"
      by (auto simp: in_set_conv_nth)
    with fields[of k] len show "\<exists>ws gs i. e (ustr ''Analyzed_Word'') = Some (Lst ws)
              \<and> e (ustr ''Gloss'') = Some (Lst gs) \<and> e (ustr ''ID'') = Some (Str i)"
      by simp
  qed
  from warn_about_glosses_spec[OF this] obtain texts
    where texts: "list_all2 (\<lambda>e t. render_example e = Inr t
                        \<and> (\<exists>i. e (ustr ''ID'') = Some (Str i) \<and> prefix (ustr ''('' @ i @ ustr '')'') t))
               (filter (\<lambda>e. len_val (the (e (ustr ''Analyzed_Word'')))
                              \<noteq> len_val (the (e (ustr ''Gloss'')))) out) texts"
      and warn: "warn_about_glosses out =
               Inr (if texts = [] then []
                    else ustr ''ERROR: Misaligned glosses in examples:''
                         # concat (map (\<lambda>t. [[], t]) texts))"
    by blast
  have "example_table uc example_rows =
             Inr (out,
                  if texts = [] then []
                  else ustr ''ERROR: Misaligned glosses in examples:''
                       # concat (map (\<lambda>t. [[], t]) texts))"
    by (simp only: example_table_def made out(1) warn ebind_def sum.case)
  with len fields texts show ?thesis
    by blast
qed

text \<open>
  Claim C6. When every example row has its five columns, the example table is built,
  and the example at position \<open>k\<close> carries the corrected language id of row \<open>k\<close> and
  the identity \<^verbatim>\<open>{language_id}-{n}\<close>, where \<open>n\<close> is the number of rows up to and
  including \<open>k\<close> with the same corrected language id: 1, 2, 3, ... for each language
  in input order, whatever rows of other languages lie between.
\<close>

theorem example_ids_per_language:
  assumes "\<forall>r \<in> set example_rows. 5 \<le> length r"
  shows "\<exists>examples printed.
           example_table uc example_rows = Inr (examples, printed)
           \<and> length examples = length example_rows
           \<and> (\<forall>k < length example_rows.
                 (examples ! k) (ustr ''Language_ID'')
                   = Some (Str (fix_example_lang_id (example_rows ! k ! 0)))
                 \<and> (examples ! k) (ustr ''ID'')
                   = Some (Str (fix_example_lang_id (example_rows ! k ! 0) @ ustr ''-''
                        @ str_nat (length
                            (filter (\<lambda>r. fix_example_lang_id (r ! 0)
                                            = fix_example_lang_id (example_rows ! k ! 0))
                               (take (Suc k) example_rows))))))"
proof -
  from example_table_spec[OF assms, of uc] obtain examples texts
    where "example_table uc example_rows =
             Inr (examples,
                  if texts = [] then []
                  else ustr ''ERROR: Misaligned glosses in examples:''
                       # concat (map (\<lambda>t. [[], t]) texts))"
      and "length examples = length example_rows"
      and "\<forall>k < length example_rows.
                 (examples ! k) (ustr ''Language_ID'')
                   = Some (Str (fix_example_lang_id (example_rows ! k ! 0)))
                 \<and> (examples ! k) (ustr ''Analyzed_Word'')
                   = Some (Lst (map (detex uc) (split (example_rows ! k ! 1))))
                 \<and> (examples ! k) (ustr ''Gloss'')
                   = Some (Lst (map (detex uc) (split (example_rows ! k ! 2))))
                 \<and> (examples ! k) (ustr ''ID'')
                   = Some (Str (fix_example_lang_id (example_rows ! k ! 0) @ ustr ''-''
                        @ str_nat (length
                            (filter (\<lambda>r. fix_example_lang_id (r ! 0)
                                            = fix_example_lang_id (example_rows ! k ! 0))
                               (take (Suc k) example_rows)))))"
    by (elim exE conjE) (rule that; assumption)
  then show ?thesis
    by (intro exI[of _ examples] exI conjI) (assumption, assumption, simp)
qed

theorem example_ids_per_language_witness:
  "\<exists>examples printed.
     example_table (\<lambda>c. [c])
       [[ustr ''a'', ustr ''x'', ustr ''y'', ustr ''t'', ustr ''r''],
        [ustr ''wara1247'', ustr ''x'', ustr ''y'', ustr ''t'', ustr ''r''],
        [ustr ''a'', ustr ''x'', ustr ''y'', ustr ''t'', ustr ''r'']]
       = Inr (examples, printed)
     \<and> map (\<lambda>e. e (ustr ''ID'')) examples
         = [Some (Str (ustr ''a-1'')), Some (Str (ustr ''wara1300-1'')), Some (Str (ustr ''a-2''))]"
proof -
  let ?rows = "[[ustr ''a'', ustr ''x'', ustr ''y'', ustr ''t'', ustr ''r''],
        [ustr ''wara1247'', ustr ''x'', ustr ''y'', ustr ''t'', ustr ''r''],
        [ustr ''a'', ustr ''x'', ustr ''y'', ustr ''t'', ustr ''r'']]"
  have h: "\<forall>r \<in> set ?rows. 5 \<le> length r"
    by simp
  from example_ids_per_language[OF h, of "\<lambda>c. [c]"] obtain examples printed
    where run: "example_table (\<lambda>c. [c]) ?rows = Inr (examples, printed)"
      and len: "length examples = length ?rows"
      and ids: "\<forall>k < length ?rows.
                 (examples ! k) (ustr ''Language_ID'')
                   = Some (Str (fix_example_lang_id (?rows ! k ! 0)))
                 \<and> (examples ! k) (ustr ''ID'')
                   = Some (Str (fix_example_lang_id (?rows ! k ! 0) @ ustr ''-''
                        @ str_nat (length
                            (filter (\<lambda>r. fix_example_lang_id (r ! 0)
                                            = fix_example_lang_id (?rows ! k ! 0))
                               (take (Suc k) ?rows)))))"
    by (elim exE conjE) (rule that; assumption)
  have s: "str_nat (Suc 0) = ustr ''1''" "str_nat (Suc (Suc 0)) = ustr ''2''"
    by (simp_all add: str_nat.simps ustr_def)
  have cat: "ustr ''a'' @ ustr ''-'' @ ustr ''1'' = ustr ''a-1''"
    "ustr ''a'' @ ustr ''-'' @ ustr ''2'' = ustr ''a-2''"
    "ustr ''wara1300'' @ ustr ''-'' @ ustr ''1'' = ustr ''wara1300-1''"
    by (simp_all add: ustr_def)
  from ids[rule_format, of 0] have "(examples ! 0) (ustr ''ID'') = Some (Str (ustr ''a-1''))"
    by (simp add: fix_example_lang_id_def s cat)
  moreover from ids[rule_format, of 1] have "(examples ! 1) (ustr ''ID'') = Some (Str (ustr ''wara1300-1''))"
    by (simp add: fix_example_lang_id_def s cat)
  moreover from ids[rule_format, of 2] have "(examples ! 2) (ustr ''ID'') = Some (Str (ustr ''a-2''))"
    by (simp add: fix_example_lang_id_def s cat)
  moreover from len obtain e0 e1 e2 where "examples = [e0, e1, e2]"
    by (auto simp: length_Suc_conv)
  ultimately have "map (\<lambda>e. e (ustr ''ID'')) examples
         = [Some (Str (ustr ''a-1'')), Some (Str (ustr ''wara1300-1'')), Some (Str (ustr ''a-2''))]"
    by simp
  with run show ?thesis
    by (intro exI conjI)
qed

section \<open>The whole conversion\<close>

lemma set_update_subset: "set (AList.update k v al) \<subseteq> insert (k, v) (set al)"
  by (induction al) auto

lemma build_code_table_spec:
  assumes "\<forall>code \<in> set codes. \<exists>k. code (ustr ''ID'') = Some k \<and> Q k code"
    and "\<forall>(k, code) \<in> set acc. Q k code"
  shows "\<exists>tbl. build_code_table codes acc = Inr tbl \<and> (\<forall>(k, code) \<in> set tbl. Q k code)"
  using assms
proof (induction codes arbitrary: acc)
  case Nil
  then show ?case by simp
next
  case (Cons code codes)
  from Cons.prems(1) obtain k where k: "code (ustr ''ID'') = Some k" "Q k code"
    by auto
  have "\<forall>(k, code) \<in> set (AList.update k code acc). Q k code"
    using set_update_subset[of k code acc] Cons.prems(2) k(2) by auto
  with Cons.IH[of "AList.update k code acc"] Cons.prems(1) k(1) show ?case
    by (simp add: getitem_def ebind_def)
qed

lemma build_code_id_map_spec:
  assumes "\<forall>code \<in> set cs. code (ustr ''Parameter_ID'') \<noteq> None
             \<and> code (ustr ''Spreadsheet_Value'') \<noteq> None \<and> code (ustr ''ID'') \<noteq> None"
  shows "\<exists>m. build_code_id_map cs acc = Inr m
           \<and> (\<forall>key i. m key = Some i \<longrightarrow> acc key = Some i \<or> (\<exists>code \<in> set cs. code (ustr ''ID'') = Some i))"
  using assms
proof (induction cs arbitrary: acc)
  case Nil
  then show ?case by simp
next
  case (Cons code cs)
  from Cons.prems obtain p v i where c: "code (ustr ''Parameter_ID'') = Some p"
    "code (ustr ''Spreadsheet_Value'') = Some v" "code (ustr ''ID'') = Some i"
    by auto
  from Cons.prems have "\<forall>code \<in> set cs. code (ustr ''Parameter_ID'') \<noteq> None
             \<and> code (ustr ''Spreadsheet_Value'') \<noteq> None \<and> code (ustr ''ID'') \<noteq> None"
    by simp
  from Cons.IH[OF this, of "acc((p, v) \<mapsto> i)"] obtain m
    where m: "build_code_id_map cs (acc((p, v) \<mapsto> i)) = Inr m"
      and mm: "\<And>key j. m key = Some j \<Longrightarrow>
                 (acc((p, v) \<mapsto> i)) key = Some j \<or> (\<exists>code \<in> set cs. code (ustr ''ID'') = Some j)"
    by blast
  have "build_code_id_map (code # cs) acc = Inr m"
    using c m by (simp add: getitem_def ebind_def)
  moreover have "acc key = Some j \<or> (\<exists>c \<in> set (code # cs). c (ustr ''ID'') = Some j)"
    if "m key = Some j" for key j
    using mm[OF that] c(3) by (auto split: if_splits)
  ultimately show ?case
    by blast
qed

lemma code_tables_consistent:
  assumes "\<forall>code \<in> set codes. code (ustr ''ID'') \<noteq> None \<and> code (ustr ''Parameter_ID'') \<noteq> None
             \<and> code (ustr ''Spreadsheet_Value'') \<noteq> None \<and> code (ustr ''Name'') \<noteq> None"
  shows "\<exists>tbl m. build_code_table codes [] = Inr tbl
           \<and> build_code_id_map (map snd tbl) Map.empty = Inr m
           \<and> (\<forall>key i. m key = Some i
                \<longrightarrow> (\<exists>code. map_of tbl i = Some code \<and> code (ustr ''Name'') \<noteq> None))"
proof -
  let ?Q = "\<lambda>k code. code (ustr ''ID'') = Some k \<and> code (ustr ''Parameter_ID'') \<noteq> None
             \<and> code (ustr ''Spreadsheet_Value'') \<noteq> None \<and> code (ustr ''Name'') \<noteq> None"
  have "\<forall>code \<in> set codes. \<exists>k. code (ustr ''ID'') = Some k \<and> ?Q k code"
    using assms by auto
  from build_code_table_spec[of codes ?Q "[]", OF this] obtain tbl
    where tbl: "build_code_table codes [] = Inr tbl" and inv: "\<forall>(k, code) \<in> set tbl. ?Q k code"
    by auto
  have "\<forall>code \<in> set (map snd tbl). code (ustr ''Parameter_ID'') \<noteq> None
             \<and> code (ustr ''Spreadsheet_Value'') \<noteq> None \<and> code (ustr ''ID'') \<noteq> None"
    using inv by auto
  from build_code_id_map_spec[OF this, of Map.empty] obtain m
    where m: "build_code_id_map (map snd tbl) Map.empty = Inr m"
      and mm: "\<And>key i. m key = Some i \<Longrightarrow> \<exists>code \<in> set (map snd tbl). code (ustr ''ID'') = Some i"
    by auto
  have "\<exists>code. map_of tbl i = Some code \<and> code (ustr ''Name'') \<noteq> None" if "m key = Some i" for key i
  proof -
    from mm[OF that] obtain k code where kc: "(k, code) \<in> set tbl" "code (ustr ''ID'') = Some i"
      by auto
    with inv have "k = i"
      by auto
    with kc have "i \<in> fst ` set tbl"
      by force
    then obtain code' where c': "map_of tbl i = Some code'"
      by (meson map_of_eq_None_iff not_Some_eq)
    then have "(i, code') \<in> set tbl"
      by (rule map_of_SomeD)
    with inv c' show ?thesis
      by auto
  qed
  with tbl m show ?thesis
    by blast
qed

lemma language_table_succeeds:
  assumes "\<forall>row \<in> set raw_data. \<forall>c \<in> set (map snd LANGUAGE_COLUMN_MAP). row c \<noteq> None"
  shows "\<exists>languages. language_table raw_data = Inr languages \<and> length languages = length raw_data"
proof -
  have one: "\<exists>lang. language_row row = Inr lang \<and> (\<exists>r. lang (ustr ''reference'') = Some (Str r))"
    if "row \<in> set raw_data" for row
  proof -
    from that assms have "\<forall>c \<in> set (map snd LANGUAGE_COLUMN_MAP). row c \<noteq> None"
      by blast
    then show ?thesis
      by (auto simp: lang_defs)
  qed
  from emap_list_all2[of raw_data language_row "\<lambda>row lang. \<exists>r. lang (ustr ''reference'') = Some (Str r)"] one
  obtain langs where langs: "emap language_row raw_data = Inr langs"
    and all2: "list_all2 (\<lambda>row lang. \<exists>r. lang (ustr ''reference'') = Some (Str r)) raw_data langs"
    by blast
  have "\<exists>y. add_source lang = Inr y \<and> True" if "lang \<in> set langs" for lang
  proof -
    from that all2 obtain r where "lang (ustr ''reference'') = Some (Str r)"
      by (auto simp: list_all2_conv_all_nth in_set_conv_nth)
    from add_source_keeps[of lang r, OF this] show ?thesis
      by blast
  qed
  from emap_list_all2[of langs add_source "\<lambda>x y. True", OF this]
  obtain out where "emap add_source langs = Inr out" "length out = length langs"
    by (auto dest: list_all2_lengthD)
  with langs all2 show ?thesis
    by (auto simp: language_table_def ebind_def dest: list_all2_lengthD)
qed

lemma parameter_ids_eq:
  assumes "\<forall>param \<in> set parameter_table. param (ustr ''ID'') \<noteq> None"
  shows "parameter_ids parameter_table
           = Inr (map (\<lambda>param. the (param (ustr ''ID''))) parameter_table)"
  unfolding parameter_ids_def
  using assms by (intro emap_eq_map) (auto simp: getitem_def)

lemma cmd_makecldf_spec:
  assumes "\<forall>row \<in> set raw_data.
             (\<forall>c \<in> set (map snd LANGUAGE_COLUMN_MAP). row c \<noteq> None)
             \<and> (\<forall>param \<in> set parameter_table. row (the (param (ustr ''ID''))) \<noteq> None)"
    and "\<forall>param \<in> set parameter_table. param (ustr ''ID'') \<noteq> None"
    and "\<forall>code \<in> set codes. code (ustr ''ID'') \<noteq> None \<and> code (ustr ''Parameter_ID'') \<noteq> None
             \<and> code (ustr ''Spreadsheet_Value'') \<noteq> None \<and> code (ustr ''Name'') \<noteq> None"
    and "\<forall>r \<in> set example_rows. 5 \<le> length r"
  shows "\<exists>out tbl m.
           cmd_makecldf uc raw_data example_rows bibtex parameter_table codes = Inr out
           \<and> value_table raw_data (map_of tbl) m
                (map (\<lambda>param. the (param (ustr ''ID''))) parameter_table) = Inr (ValueTable out)
           \<and> length (ValueTable out) = length raw_data * length parameter_table
           \<and> map (\<lambda>v. (v (ustr ''Language_ID''), v (ustr ''Parameter_ID''), v (ustr ''ID'')))
                 (ValueTable out)
               = concat (map (\<lambda>row. map (\<lambda>param.
                                  (row (ustr ''id''), param (ustr ''ID''),
                                   Some (the (row (ustr ''id'')) @ ustr ''-''
                                         @ the (param (ustr ''ID'')))))
                                parameter_table) raw_data)
           \<and> example_table uc example_rows = Inr (ExampleTable out, Printed out)
           \<and> length (LanguageTable out) = length raw_data
           \<and> Sources out = patch_biblio bibtex"
proof -
  let ?pids = "map (\<lambda>param. the (param (ustr ''ID''))) parameter_table"
  from code_tables_consistent[OF assms(3)] obtain tbl m
    where tbl: "build_code_table codes [] = Inr tbl"
      and m: "build_code_id_map (map snd tbl) Map.empty = Inr m"
      and cons: "\<forall>key i. m key = Some i
                \<longrightarrow> (\<exists>code. map_of tbl i = Some code \<and> code (ustr ''Name'') \<noteq> None)"
    by blast
  from assms(1) have "\<forall>row \<in> set raw_data. \<forall>c \<in> set (map snd LANGUAGE_COLUMN_MAP). row c \<noteq> None"
    by blast
  from language_table_succeeds[OF this] obtain languages
    where langs: "language_table raw_data = Inr languages" "length languages = length raw_data"
    by blast
  have v1: "\<forall>row \<in> set raw_data. row (ustr ''id'') \<noteq> None \<and> (\<forall>p \<in> set ?pids. row p \<noteq> None)"
    using assms(1) by (auto simp: LANGUAGE_COLUMN_MAP_def)
  have v2: "\<forall>p cell code_id. m (p, cell) = Some code_id \<and> code_id \<noteq> []
           \<longrightarrow> (\<exists>code. map_of tbl code_id = Some code \<and> code (ustr ''Name'') \<noteq> None)"
    using cons by blast
  from value_table_spec[OF v1 v2] obtain vals
    where vals: "value_table raw_data (map_of tbl) m ?pids = Inr vals"
      and vlen: "length vals = length raw_data * length ?pids"
      and vmap: "map (\<lambda>v. (v (ustr ''Language_ID''), v (ustr ''Parameter_ID''), v (ustr ''ID''))) vals
                   = concat (map (\<lambda>row. map (\<lambda>p. (row (ustr ''id''), Some p,
                                                 Some (the (row (ustr ''id'')) @ ustr ''-'' @ p)))
                                        ?pids) raw_data)"
    by blast
  have "map (\<lambda>p. (row (ustr ''id''), Some p, Some (the (row (ustr ''id'')) @ ustr ''-'' @ p))) ?pids
          = map (\<lambda>param. (row (ustr ''id''), param (ustr ''ID''),
                           Some (the (row (ustr ''id'')) @ ustr ''-'' @ the (param (ustr ''ID'')))))
              parameter_table" for row :: row
    using assms(2) by (auto simp: comp_def)
  then have "concat (map (\<lambda>row. map (\<lambda>p. (row (ustr ''id''), Some p,
                                                 Some (the (row (ustr ''id'')) @ ustr ''-'' @ p)))
                                        ?pids) raw_data)
               = concat (map (\<lambda>row. map (\<lambda>param.
                                  (row (ustr ''id''), param (ustr ''ID''),
                                   Some (the (row (ustr ''id'')) @ ustr ''-''
                                         @ the (param (ustr ''ID'')))))
                                parameter_table) raw_data)"
    by (simp only:)
  with vmap have vmap': "map (\<lambda>v. (v (ustr ''Language_ID''), v (ustr ''Parameter_ID''), v (ustr ''ID''))) vals
               = concat (map (\<lambda>row. map (\<lambda>param.
                                  (row (ustr ''id''), param (ustr ''ID''),
                                   Some (the (row (ustr ''id'')) @ ustr ''-''
                                         @ the (param (ustr ''ID'')))))
                                parameter_table) raw_data)"
    by (simp only:)
  from example_table_spec[OF assms(4), of uc] obtain examples printed
    where ex: "example_table uc example_rows = Inr (examples, printed)"
    by blast
  have "cmd_makecldf uc raw_data example_rows bibtex parameter_table codes =
          Inr \<lparr>Sources = patch_biblio bibtex, LanguageTable = languages,
               ParameterTable = parameter_table, CodeTable = map snd tbl,
               ValueTable = vals, ExampleTable = examples, Printed = printed\<rparr>"
    by (simp only: cmd_makecldf_def tbl langs(1) parameter_ids_eq[OF assms(2)] m vals ex
                   ebind_def sum.case prod.case)
  with vals ex langs(2) vlen vmap' show ?thesis
    by force
qed

text \<open>
  Claim C5. On input files with the columns the code reads, \<^verbatim>\<open>cmd_makecldf\<close> returns
  normally, and its value table has one record for each pair of a raw data row and a
  parameter: length of the raw data times length of the parameter table, in the order
  of the raw rows with the parameters as the inner loop, and each record has the
  identity \<^verbatim>\<open>{language_id}-{parameter_id}\<close>.
\<close>

theorem value_table_cross_product:
  assumes "\<forall>row \<in> set raw_data.
             (\<forall>c \<in> set (map snd LANGUAGE_COLUMN_MAP). row c \<noteq> None)
             \<and> (\<forall>param \<in> set parameter_table. row (the (param (ustr ''ID''))) \<noteq> None)"
    and "\<forall>param \<in> set parameter_table. param (ustr ''ID'') \<noteq> None"
    and "\<forall>code \<in> set codes. code (ustr ''ID'') \<noteq> None \<and> code (ustr ''Parameter_ID'') \<noteq> None
             \<and> code (ustr ''Spreadsheet_Value'') \<noteq> None \<and> code (ustr ''Name'') \<noteq> None"
    and "\<forall>r \<in> set example_rows. 5 \<le> length r"
  shows "\<exists>out. cmd_makecldf uc raw_data example_rows bibtex parameter_table codes = Inr out
           \<and> length (ValueTable out) = length raw_data * length parameter_table
           \<and> map (\<lambda>v. (v (ustr ''Language_ID''), v (ustr ''Parameter_ID''), v (ustr ''ID'')))
                 (ValueTable out)
               = concat (map (\<lambda>row. map (\<lambda>param.
                                  (row (ustr ''id''), param (ustr ''ID''),
                                   Some (the (row (ustr ''id'')) @ ustr ''-''
                                         @ the (param (ustr ''ID'')))))
                                parameter_table) raw_data)"
  using cmd_makecldf_spec[OF assms, of uc bibtex] by blast

theorem value_table_cross_product_witness:
  "\<exists>out. cmd_makecldf (\<lambda>c. [c])
            [[ustr ''id'' \<mapsto> ustr ''a'', ustr ''family_id'' \<mapsto> ustr ''f'',
              ustr ''parent_id'' \<mapsto> ustr ''p'', ustr ''name'' \<mapsto> ustr ''n'',
              ustr ''latitude'' \<mapsto> ustr ''1'', ustr ''longitude'' \<mapsto> ustr ''2'',
              ustr ''iso639P3code'' \<mapsto> ustr ''c'', ustr ''reference'' \<mapsto> ustr ''r'',
              ustr ''P1'' \<mapsto> ustr ''x'', ustr ''P2'' \<mapsto> ustr ''y''],
             [ustr ''id'' \<mapsto> ustr ''b'', ustr ''family_id'' \<mapsto> ustr ''f'',
              ustr ''parent_id'' \<mapsto> ustr ''p'', ustr ''name'' \<mapsto> ustr ''n'',
              ustr ''latitude'' \<mapsto> ustr ''1'', ustr ''longitude'' \<mapsto> ustr ''2'',
              ustr ''iso639P3code'' \<mapsto> ustr ''c'', ustr ''reference'' \<mapsto> ustr ''r'',
              ustr ''P1'' \<mapsto> ustr ''x'', ustr ''P2'' \<mapsto> ustr ''z'']]
            [] []
            [[ustr ''ID'' \<mapsto> ustr ''P1''], [ustr ''ID'' \<mapsto> ustr ''P2'']]
            [[ustr ''ID'' \<mapsto> ustr ''P1-x'', ustr ''Parameter_ID'' \<mapsto> ustr ''P1'',
              ustr ''Spreadsheet_Value'' \<mapsto> ustr ''x'', ustr ''Name'' \<mapsto> ustr ''yes'']]
          = Inr out
      \<and> length (ValueTable out) = 4
      \<and> map (\<lambda>v. (v (ustr ''Language_ID''), v (ustr ''Parameter_ID''), v (ustr ''ID'')))
            (ValueTable out)
          = [(Some (ustr ''a''), Some (ustr ''P1''), Some (ustr ''a-P1'')),
             (Some (ustr ''a''), Some (ustr ''P2''), Some (ustr ''a-P2'')),
             (Some (ustr ''b''), Some (ustr ''P1''), Some (ustr ''b-P1'')),
             (Some (ustr ''b''), Some (ustr ''P2''), Some (ustr ''b-P2''))]"
proof -
  let ?raw = "[[ustr ''id'' \<mapsto> ustr ''a'', ustr ''family_id'' \<mapsto> ustr ''f'',
              ustr ''parent_id'' \<mapsto> ustr ''p'', ustr ''name'' \<mapsto> ustr ''n'',
              ustr ''latitude'' \<mapsto> ustr ''1'', ustr ''longitude'' \<mapsto> ustr ''2'',
              ustr ''iso639P3code'' \<mapsto> ustr ''c'', ustr ''reference'' \<mapsto> ustr ''r'',
              ustr ''P1'' \<mapsto> ustr ''x'', ustr ''P2'' \<mapsto> ustr ''y''],
             [ustr ''id'' \<mapsto> ustr ''b'', ustr ''family_id'' \<mapsto> ustr ''f'',
              ustr ''parent_id'' \<mapsto> ustr ''p'', ustr ''name'' \<mapsto> ustr ''n'',
              ustr ''latitude'' \<mapsto> ustr ''1'', ustr ''longitude'' \<mapsto> ustr ''2'',
              ustr ''iso639P3code'' \<mapsto> ustr ''c'', ustr ''reference'' \<mapsto> ustr ''r'',
              ustr ''P1'' \<mapsto> ustr ''x'', ustr ''P2'' \<mapsto> ustr ''z'']] :: row list"
  let ?params = "[[ustr ''ID'' \<mapsto> ustr ''P1''], [ustr ''ID'' \<mapsto> ustr ''P2'']] :: row list"
  let ?codes = "[[ustr ''ID'' \<mapsto> ustr ''P1-x'', ustr ''Parameter_ID'' \<mapsto> ustr ''P1'',
              ustr ''Spreadsheet_Value'' \<mapsto> ustr ''x'', ustr ''Name'' \<mapsto> ustr ''yes'']]
              :: row list"
  have cat: "ustr ''a'' @ ustr ''-'' @ ustr ''P1'' = ustr ''a-P1''"
    "ustr ''a'' @ ustr ''-'' @ ustr ''P2'' = ustr ''a-P2''"
    "ustr ''b'' @ ustr ''-'' @ ustr ''P1'' = ustr ''b-P1''"
    "ustr ''b'' @ ustr ''-'' @ ustr ''P2'' = ustr ''b-P2''"
    by (simp_all add: ustr_def)
  have h1: "\<forall>row \<in> set ?raw.
             (\<forall>c \<in> set (map snd LANGUAGE_COLUMN_MAP). row c \<noteq> None)
             \<and> (\<forall>param \<in> set ?params. row (the (param (ustr ''ID''))) \<noteq> None)"
    by (simp add: LANGUAGE_COLUMN_MAP_def)
  have h2: "\<forall>param \<in> set ?params. param (ustr ''ID'') \<noteq> None"
    by simp
  have h3: "\<forall>code \<in> set ?codes. code (ustr ''ID'') \<noteq> None \<and> code (ustr ''Parameter_ID'') \<noteq> None
             \<and> code (ustr ''Spreadsheet_Value'') \<noteq> None \<and> code (ustr ''Name'') \<noteq> None"
    by simp
  have h4: "\<forall>r \<in> set ([] :: pystr list list). 5 \<le> length r"
    by simp
  from value_table_cross_product[OF h1 h2 h3 h4, of "\<lambda>c. [c]" "[]"] obtain out
    where run: "cmd_makecldf (\<lambda>c. [c]) ?raw [] [] ?params ?codes = Inr out"
      and len: "length (ValueTable out) = length ?raw * length ?params"
      and ids: "map (\<lambda>v. (v (ustr ''Language_ID''), v (ustr ''Parameter_ID''), v (ustr ''ID'')))
                 (ValueTable out)
               = concat (map (\<lambda>row. map (\<lambda>param.
                                  (row (ustr ''id''), param (ustr ''ID''),
                                   Some (the (row (ustr ''id'')) @ ustr ''-''
                                         @ the (param (ustr ''ID'')))))
                                ?params) ?raw)"
    by (elim exE conjE) (rule that; assumption)
  from len have l4: "length (ValueTable out) = 4"
    by simp
  from ids have i4: "map (\<lambda>v. (v (ustr ''Language_ID''), v (ustr ''Parameter_ID''), v (ustr ''ID'')))
            (ValueTable out)
          = [(Some (ustr ''a''), Some (ustr ''P1''), Some (ustr ''a-P1'')),
             (Some (ustr ''a''), Some (ustr ''P2''), Some (ustr ''a-P2'')),
             (Some (ustr ''b''), Some (ustr ''P1''), Some (ustr ''b-P1'')),
             (Some (ustr ''b''), Some (ustr ''P2''), Some (ustr ''b-P2''))]"
    by (simp add: cat)
  show ?thesis
    by (intro exI[of _ out] conjI run l4 i4)
qed

text \<open>
  Claim C7. On the same inputs the conversion returns normally also when examples are
  misaligned. The example table has one example for each example row, in order, with
  the tokens of its text and gloss. What is printed is one rendering for each
  example whose two token lists differ in length, in table order, each starting
  with the identity of its example in parentheses, after one header line and each
  after an empty line; nothing is printed when no example is misaligned.
\<close>

theorem misaligned_examples_reported:
  assumes "\<forall>row \<in> set raw_data.
             (\<forall>c \<in> set (map snd LANGUAGE_COLUMN_MAP). row c \<noteq> None)
             \<and> (\<forall>param \<in> set parameter_table. row (the (param (ustr ''ID''))) \<noteq> None)"
    and "\<forall>param \<in> set parameter_table. param (ustr ''ID'') \<noteq> None"
    and "\<forall>code \<in> set codes. code (ustr ''ID'') \<noteq> None \<and> code (ustr ''Parameter_ID'') \<noteq> None
             \<and> code (ustr ''Spreadsheet_Value'') \<noteq> None \<and> code (ustr ''Name'') \<noteq> None"
    and "\<forall>r \<in> set example_rows. 5 \<le> length r"
  shows "\<exists>out texts.
           cmd_makecldf uc raw_data example_rows bibtex parameter_table codes = Inr out
           \<and> length (ExampleTable out) = length example_rows
           \<and> (\<forall>k < length example_rows.
                 (ExampleTable out ! k) (ustr ''Analyzed_Word'')
                   = Some (Lst (map (detex uc) (split (example_rows ! k ! 1))))
                 \<and> (ExampleTable out ! k) (ustr ''Gloss'')
                   = Some (Lst (map (detex uc) (split (example_rows ! k ! 2)))))
           \<and> list_all2 (\<lambda>e t. render_example e = Inr t
                        \<and> (\<exists>i. e (ustr ''ID'') = Some (Str i) \<and> prefix (ustr ''('' @ i @ ustr '')'') t))
               (filter (\<lambda>e. len_val (the (e (ustr ''Analyzed_Word'')))
                              \<noteq> len_val (the (e (ustr ''Gloss'')))) (ExampleTable out)) texts
           \<and> Printed out = (if texts = [] then []
                             else ustr ''ERROR: Misaligned glosses in examples:''
                                  # concat (map (\<lambda>t. [[], t]) texts))"
proof -
  from cmd_makecldf_spec[OF assms, of uc bibtex] obtain out
    where run: "cmd_makecldf uc raw_data example_rows bibtex parameter_table codes = Inr out"
      and ex: "example_table uc example_rows = Inr (ExampleTable out, Printed out)"
    by (elim exE conjE) (rule that; assumption)
  from example_table_spec[OF assms(4), of uc] obtain examples texts
    where ex': "example_table uc example_rows =
             Inr (examples,
                  if texts = [] then []
                  else ustr ''ERROR: Misaligned glosses in examples:''
                       # concat (map (\<lambda>t. [[], t]) texts))"
      and len: "length examples = length example_rows"
      and fields: "\<forall>k < length example_rows.
                 (examples ! k) (ustr ''Language_ID'')
                   = Some (Str (fix_example_lang_id (example_rows ! k ! 0)))
                 \<and> (examples ! k) (ustr ''Analyzed_Word'')
                   = Some (Lst (map (detex uc) (split (example_rows ! k ! 1))))
                 \<and> (examples ! k) (ustr ''Gloss'')
                   = Some (Lst (map (detex uc) (split (example_rows ! k ! 2))))
                 \<and> (examples ! k) (ustr ''ID'')
                   = Some (Str (fix_example_lang_id (example_rows ! k ! 0) @ ustr ''-''
                        @ str_nat (length
                            (filter (\<lambda>r. fix_example_lang_id (r ! 0)
                                            = fix_example_lang_id (example_rows ! k ! 0))
                               (take (Suc k) example_rows)))))"
      and texts: "list_all2 (\<lambda>e t. render_example e = Inr t
                        \<and> (\<exists>i. e (ustr ''ID'') = Some (Str i) \<and> prefix (ustr ''('' @ i @ ustr '')'') t))
               (filter (\<lambda>e. len_val (the (e (ustr ''Analyzed_Word'')))
                              \<noteq> len_val (the (e (ustr ''Gloss'')))) examples) texts"
    by (elim exE conjE) (rule that; assumption)
  from ex ex' have same: "examples = ExampleTable out"
    "Printed out = (if texts = [] then []
                             else ustr ''ERROR: Misaligned glosses in examples:''
                                  # concat (map (\<lambda>t. [[], t]) texts))"
    by simp_all
  from fields have "\<forall>k < length example_rows.
                 (examples ! k) (ustr ''Analyzed_Word'')
                   = Some (Lst (map (detex uc) (split (example_rows ! k ! 1))))
                 \<and> (examples ! k) (ustr ''Gloss'')
                   = Some (Lst (map (detex uc) (split (example_rows ! k ! 2))))"
    by simp
  with run len texts same show ?thesis
    by (intro exI[of _ out] exI[of _ texts] conjI) simp_all
qed

theorem misaligned_examples_reported_witness:
  "\<exists>out t.
     cmd_makecldf (\<lambda>c. [c]) []
       [[ustr ''a'', ustr ''x y'', ustr ''z'', ustr ''t'', ustr ''r''],
        [ustr ''a'', ustr ''x'', ustr ''y'', ustr ''t'', ustr ''r'']] [] [] [] = Inr out
     \<and> length (ExampleTable out) = 2
     \<and> render_example (ExampleTable out ! 0) = Inr t
     \<and> Printed out = [ustr ''ERROR: Misaligned glosses in examples:'', [], t]"
proof -
  let ?rows = "[[ustr ''a'', ustr ''x y'', ustr ''z'', ustr ''t'', ustr ''r''],
        [ustr ''a'', ustr ''x'', ustr ''y'', ustr ''t'', ustr ''r'']]"
  let ?uc = "\<lambda>c::nat. [c]"
  have h1: "\<forall>row \<in> set ([] :: row list).
             (\<forall>c \<in> set (map snd LANGUAGE_COLUMN_MAP). row c \<noteq> None)
             \<and> (\<forall>param \<in> set ([] :: row list). row (the (param (ustr ''ID''))) \<noteq> None)"
    by simp
  have h2: "\<forall>param \<in> set ([] :: row list). param (ustr ''ID'') \<noteq> None"
    by simp
  have h3: "\<forall>code \<in> set ([] :: row list). code (ustr ''ID'') \<noteq> None
             \<and> code (ustr ''Parameter_ID'') \<noteq> None
             \<and> code (ustr ''Spreadsheet_Value'') \<noteq> None \<and> code (ustr ''Name'') \<noteq> None"
    by simp
  have h4: "\<forall>r \<in> set ?rows. 5 \<le> length r"
    by simp
  from misaligned_examples_reported[OF h1 h2 h3 h4, of ?uc "[]"] obtain out texts
    where run: "cmd_makecldf ?uc [] ?rows [] [] [] = Inr out"
      and len: "length (ExampleTable out) = length ?rows"
      and fields: "\<forall>k < length ?rows.
                 (ExampleTable out ! k) (ustr ''Analyzed_Word'')
                   = Some (Lst (map (detex ?uc) (split (?rows ! k ! 1))))
                 \<and> (ExampleTable out ! k) (ustr ''Gloss'')
                   = Some (Lst (map (detex ?uc) (split (?rows ! k ! 2))))"
      and texts: "list_all2 (\<lambda>e t. render_example e = Inr t
                        \<and> (\<exists>i. e (ustr ''ID'') = Some (Str i) \<and> prefix (ustr ''('' @ i @ ustr '')'') t))
               (filter (\<lambda>e. len_val (the (e (ustr ''Analyzed_Word'')))
                              \<noteq> len_val (the (e (ustr ''Gloss'')))) (ExampleTable out)) texts"
      and printed: "Printed out = (if texts = [] then []
                             else ustr ''ERROR: Misaligned glosses in examples:''
                                  # concat (map (\<lambda>t. [[], t]) texts))"
    by (elim exE conjE) (rule that; assumption)
  from len obtain e0 e1 where tbl: "ExampleTable out = [e0, e1]"
    by (auto simp: length_Suc_conv)
  have sp: "split (ustr ''x y'') = [ustr ''x'', ustr ''y'']" "split (ustr ''z'') = [ustr ''z'']"
    "split (ustr ''x'') = [ustr ''x'']" "split (ustr ''y'') = [ustr ''y'']"
    by (simp_all add: split_def ustr_def isspace_def)
  from fields[rule_format, of 0] tbl
  have e0: "len_val (the (e0 (ustr ''Analyzed_Word''))) \<noteq> len_val (the (e0 (ustr ''Gloss'')))"
    by (simp add: sp)
  from fields[rule_format, of 1] tbl
  have e1: "len_val (the (e1 (ustr ''Analyzed_Word''))) = len_val (the (e1 (ustr ''Gloss'')))"
    by (simp add: sp)
  from texts tbl e0 e1 obtain t where t: "texts = [t]" "render_example e0 = Inr t"
    by (auto simp: list_all2_Cons1)
  with printed tbl have "render_example (ExampleTable out ! 0) = Inr t"
    and "Printed out = [ustr ''ERROR: Misaligned glosses in examples:'', [], t]"
    by simp_all
  with run len show ?thesis
    by (intro exI[of _ out] exI[of _ t] conjI) simp_all
qed

end
